theory Spec2Isabelle
  imports Complex_Main "HOL-Library.Word"
begin

unbundle bit_operations_syntax

section \<open>The UART driver of \<^verbatim>\<open>bdk/soc/uart.c\<close>\<close>

text \<open>
  The driver is a set of polled routines over a memory-mapped register block. Every
  integer of the source is a \<^verbatim>\<open>u32\<close> (or narrower), so the model computes on
  words: addition and multiplication wrap around, comparisons are unsigned.
\<close>

type_synonym u8 = "8 word"
type_synonym u16 = "16 word"
type_synonym u32 = "32 word"

subsection \<open>What the headers and the hardware provide\<close>

text \<open>
  The bit masks of \<^verbatim>\<open>soc/uart.h\<close>, the base address of \<^verbatim>\<open>soc/t210.h\<close> and the
  clock helper of \<^verbatim>\<open>soc/clock.h\<close> are not part of the verified file; they are
  parameters of the model, collected in one record. The names are those the source uses.
\<close>

record uart_defs =
  UART_BASE :: u32
  UART_LCR_DLAB :: u32
  UART_LCR_STOP :: u32
  UART_LCR_WORD_LENGTH_8 :: u32
  UART_MCR_CTS_EN :: u32
  UART_MCR_DTR :: u32
  UART_MCR_RTS :: u32
  UART_LSR_RDR :: u32
  UART_LSR_THRE :: u32
  UART_LSR_TMTY :: u32
  UART_IIR_FCR_EN_FIFO :: u32
  UART_IIR_FCR_TX_CLR :: u32
  UART_IIR_FCR_RX_CLR :: u32
  UART_IIR_INT_MASK :: u32
  UART_IIR_NO_INT :: u32
  UART_IER_DLAB_IE_EORD :: u32
  UART_TX_IDLE :: u32
  UART_RX_RDYR :: u32

text \<open>
  The registers the driver only reads are driven by the hardware. A run of the driver
  sees a sequence of values on each of them: \<open>lsr_in e k\<close> is the value the \<open>k\<close>-th
  read of the line status register returns, \<open>rbr_in e k\<close> the value of the \<open>k\<close>-th read
  of the receive buffer (\<^verbatim>\<open>UART_THR_DLAB\<close> read with the latch clear), \<open>iir_in e k\<close> that
  of the interrupt identification register, and \<open>tmr_in e k\<close> the value the \<open>k\<close>-th call
  of \<^verbatim>\<open>get_tmr_us()\<close> returns. \<open>clock_uart_use_src_div e idx baud\<close> is the result of
  the clock helper.

  The offset table has five entries and no routine compares its index with that number.
  C leaves a read past the end undefined; the compiled code reads the half-word that
  lies there. \<open>past_table e idx\<close> is that half-word, for an index of 5 or more.
\<close>

record uart_env =
  lsr_in :: "nat \<Rightarrow> u32"
  rbr_in :: "nat \<Rightarrow> u32"
  iir_in :: "nat \<Rightarrow> u32"
  tmr_in :: "nat \<Rightarrow> u32"
  clock_uart_use_src_div :: "u32 \<Rightarrow> u32 \<Rightarrow> bool"
  past_table :: "u32 \<Rightarrow> u16"

text \<open>
  The read/write registers of one block (\<^verbatim>\<open>uart_t\<close>): each holds the value last
  written to it, and a read in a read-modify-write (\<^verbatim>\<open>|=\<close>, \<^verbatim>\<open>&=\<close>) returns that
  value. The reads of the scratch register \<^verbatim>\<open>UART_SPR\<close>, whose value the driver
  discards, are left out.
\<close>

record uart_t =
  UART_THR_DLAB :: u32
  UART_IER_DLAB :: u32
  UART_IIR_FCR :: u32
  UART_LCR :: u32
  UART_MCR :: u32
  UART_IRDA_CSR :: u32

text \<open>
  What the driver does to the hardware, in the order it does it: a write of a value to
  a register of the block at an address, a read of a hardware-driven register with the
  value it returned, a call of \<^verbatim>\<open>get_tmr_us()\<close> with its result, a call of
  \<^verbatim>\<open>usleep\<close> with its argument. Reading back a read/write register changes nothing
  and is not recorded.
\<close>

datatype reg = THR_DLAB | IER_DLAB | IIR_FCR | LCR | MCR | LSR | IRDA_CSR

datatype event = Write u32 reg u32 | Read u32 reg u32 | Get_tmr u32 | Usleep u32

fun is_write :: "event \<Rightarrow> bool" where
  "is_write (Write a r v) = True"
| "is_write (Read a r v) = False"
| "is_write (Get_tmr v) = False"
| "is_write (Usleep us) = False"

text \<open>
  The machine: the register blocks by address, how many reads of each hardware-driven
  register have happened, the arguments of the \<^verbatim>\<open>usleep\<close> calls made so far, and
  the events so far.
\<close>

record machine =
  uarts :: "u32 \<Rightarrow> uart_t"
  lsr_reads :: nat
  rbr_reads :: nat
  iir_reads :: nat
  tmr_reads :: nat
  slept :: "u32 list"
  trace :: "event list"

text \<open>A division by zero, which C leaves undefined, is a value of the model.\<close>

datatype fault = Division_by_zero

subsection \<open>Register access\<close>

definition rd_LSR :: "uart_env \<Rightarrow> u32 \<Rightarrow> machine \<Rightarrow> u32 \<times> machine" where
  "rd_LSR e uart m =
     (lsr_in e (lsr_reads m),
      m\<lparr>lsr_reads := Suc (lsr_reads m),
        trace := trace m @ [Read uart LSR (lsr_in e (lsr_reads m))]\<rparr>)"

definition rd_RBR :: "uart_env \<Rightarrow> u32 \<Rightarrow> machine \<Rightarrow> u32 \<times> machine" where
  "rd_RBR e uart m =
     (rbr_in e (rbr_reads m),
      m\<lparr>rbr_reads := Suc (rbr_reads m),
        trace := trace m @ [Read uart THR_DLAB (rbr_in e (rbr_reads m))]\<rparr>)"

definition rd_IIR :: "uart_env \<Rightarrow> u32 \<Rightarrow> machine \<Rightarrow> u32 \<times> machine" where
  "rd_IIR e uart m =
     (iir_in e (iir_reads m),
      m\<lparr>iir_reads := Suc (iir_reads m),
        trace := trace m @ [Read uart IIR_FCR (iir_in e (iir_reads m))]\<rparr>)"

definition get_tmr_us :: "uart_env \<Rightarrow> machine \<Rightarrow> u32 \<times> machine" where
  "get_tmr_us e m =
     (tmr_in e (tmr_reads m),
      m\<lparr>tmr_reads := Suc (tmr_reads m),
        trace := trace m @ [Get_tmr (tmr_in e (tmr_reads m))]\<rparr>)"

definition usleep :: "u32 \<Rightarrow> machine \<Rightarrow> machine" where
  "usleep us m = m\<lparr>slept := slept m @ [us], trace := trace m @ [Usleep us]\<rparr>"

definition wr_THR_DLAB :: "u32 \<Rightarrow> u32 \<Rightarrow> machine \<Rightarrow> machine" where
  "wr_THR_DLAB uart v m =
     m\<lparr>uarts := (uarts m)(uart := (uarts m uart)\<lparr>UART_THR_DLAB := v\<rparr>),
       trace := trace m @ [Write uart THR_DLAB v]\<rparr>"

definition wr_IER_DLAB :: "u32 \<Rightarrow> u32 \<Rightarrow> machine \<Rightarrow> machine" where
  "wr_IER_DLAB uart v m =
     m\<lparr>uarts := (uarts m)(uart := (uarts m uart)\<lparr>UART_IER_DLAB := v\<rparr>),
       trace := trace m @ [Write uart IER_DLAB v]\<rparr>"

definition wr_IIR_FCR :: "u32 \<Rightarrow> u32 \<Rightarrow> machine \<Rightarrow> machine" where
  "wr_IIR_FCR uart v m =
     m\<lparr>uarts := (uarts m)(uart := (uarts m uart)\<lparr>UART_IIR_FCR := v\<rparr>),
       trace := trace m @ [Write uart IIR_FCR v]\<rparr>"

definition wr_LCR :: "u32 \<Rightarrow> u32 \<Rightarrow> machine \<Rightarrow> machine" where
  "wr_LCR uart v m =
     m\<lparr>uarts := (uarts m)(uart := (uarts m uart)\<lparr>UART_LCR := v\<rparr>),
       trace := trace m @ [Write uart LCR v]\<rparr>"

definition wr_MCR :: "u32 \<Rightarrow> u32 \<Rightarrow> machine \<Rightarrow> machine" where
  "wr_MCR uart v m =
     m\<lparr>uarts := (uarts m)(uart := (uarts m uart)\<lparr>UART_MCR := v\<rparr>),
       trace := trace m @ [Write uart MCR v]\<rparr>"

definition wr_IRDA_CSR :: "u32 \<Rightarrow> u32 \<Rightarrow> machine \<Rightarrow> machine" where
  "wr_IRDA_CSR uart v m =
     m\<lparr>uarts := (uarts m)(uart := (uarts m uart)\<lparr>UART_IRDA_CSR := v\<rparr>),
       trace := trace m @ [Write uart IRDA_CSR v]\<rparr>"

subsection \<open>The port table\<close>

definition uart_base_offsets :: "u16 list" where
  "uart_base_offsets = [0, 0x40, 0x200, 0x300, 0x400]"

text \<open>
  \<^verbatim>\<open>_uart_base_offsets[idx]\<close> is a read of the half-word at \<^verbatim>\<open>idx\<close> places from the
  start of the table: one of the five entries for an index below 5, and the half-word
  that lies past them for any other index.
\<close>

definition uart_base_offsets_at :: "uart_env \<Rightarrow> u32 \<Rightarrow> u16" where
  "uart_base_offsets_at e idx =
     (if unat idx < length uart_base_offsets then uart_base_offsets ! unat idx
      else past_table e idx)"

text \<open>
  \<^verbatim>\<open>(uart_t *)(UART_BASE + (u32)_uart_base_offsets[idx])\<close>, the first statement of every
  routine. There is no test of \<^verbatim>\<open>idx\<close>: the routine goes on with whatever the read
  yields.
\<close>

definition uart_ptr :: "uart_defs \<Rightarrow> uart_env \<Rightarrow> u32 \<Rightarrow> u32" where
  "uart_ptr d e idx = UART_BASE d + ucast (uart_base_offsets_at e idx)"

subsection \<open>\<^verbatim>\<open>uart_invert\<close>, \<^verbatim>\<open>uart_set_mode\<close>, \<^verbatim>\<open>uart_get_IIR\<close>, \<^verbatim>\<open>uart_set_IIR\<close>\<close>

definition uart_invert :: "uart_defs \<Rightarrow> uart_env \<Rightarrow> u32 \<Rightarrow> bool \<Rightarrow> u32 \<Rightarrow> machine \<Rightarrow> machine" where
  "uart_invert d e idx enable invert_mask m =
     (let uart = uart_ptr d e idx
      in if enable
         then wr_IRDA_CSR uart (UART_IRDA_CSR (uarts m uart) OR invert_mask) m
         else wr_IRDA_CSR uart (UART_IRDA_CSR (uarts m uart) AND NOT invert_mask) m)"

definition uart_set_mode :: "uart_defs \<Rightarrow> uart_env \<Rightarrow> u32 \<Rightarrow> u32 \<Rightarrow> machine \<Rightarrow> machine" where
  "uart_set_mode d e idx mode m = (let uart = uart_ptr d e idx in wr_MCR uart mode m)"

definition uart_get_IIR :: "uart_defs \<Rightarrow> uart_env \<Rightarrow> u32 \<Rightarrow> machine \<Rightarrow> u32 \<times> machine" where
  "uart_get_IIR d e idx m =
     (let uart = uart_ptr d e idx;
          (v, m1) = rd_IIR e uart m;
          iir = v AND UART_IIR_INT_MASK d
      in if iir AND UART_IIR_NO_INT d \<noteq> 0 then (0, m1)
         else (drop_bit 1 iir + 1, m1))"

definition uart_set_IIR :: "uart_defs \<Rightarrow> uart_env \<Rightarrow> u32 \<Rightarrow> machine \<Rightarrow> machine" where
  "uart_set_IIR d e idx m =
     (let uart = uart_ptr d e idx;
          m1 = wr_IER_DLAB uart
                 (UART_IER_DLAB (uarts m uart) AND NOT (UART_IER_DLAB_IE_EORD d)) m;
          m2 = wr_IER_DLAB uart (UART_IER_DLAB (uarts m1 uart) OR UART_IER_DLAB_IE_EORD d) m1
      in m2)"

subsection \<open>\<^verbatim>\<open>uart_wait_xfer\<close>\<close>

text \<open>
  The two busy-waits have no bound, so each is a partial function into \<open>option\<close>:
  \<open>None\<close> is the run that never leaves the loop.
\<close>

partial_function (option) wait_tx_idle ::
  "uart_defs \<Rightarrow> uart_env \<Rightarrow> u32 \<Rightarrow> machine \<Rightarrow> machine option" where
  "wait_tx_idle d e uart m =
     (let (lsr, m1) = rd_LSR e uart m
      in if lsr AND UART_LSR_TMTY d = 0 then wait_tx_idle d e uart m1 else Some m1)"

partial_function (option) wait_rx_drain ::
  "uart_defs \<Rightarrow> uart_env \<Rightarrow> u32 \<Rightarrow> machine \<Rightarrow> machine option" where
  "wait_rx_drain d e uart m =
     (let (lsr, m1) = rd_LSR e uart m
      in if lsr AND UART_LSR_RDR d \<noteq> 0
         then wait_rx_drain d e uart (snd (rd_RBR e uart m1))
         else Some m1)"

definition uart_wait_xfer ::
  "uart_defs \<Rightarrow> uart_env \<Rightarrow> u32 \<Rightarrow> u32 \<Rightarrow> machine \<Rightarrow> machine option" where
  "uart_wait_xfer d e idx which m =
     (let uart = uart_ptr d e idx
      in case (if UART_TX_IDLE d AND which \<noteq> 0 then wait_tx_idle d e uart m else Some m) of
           None \<Rightarrow> None
         | Some m1 \<Rightarrow>
             (if UART_RX_RDYR d AND which \<noteq> 0 then wait_rx_drain d e uart m1 else Some m1))"

subsection \<open>\<^verbatim>\<open>uart_init\<close>\<close>

text \<open>
  Line 41, \<^verbatim>\<open>clk_type ? ((8 * baud + 408000000) / (16 * baud)) : 1\<close>, and the argument of
  the last \<^verbatim>\<open>usleep\<close>, \<^verbatim>\<open>3 * ((baud + 999999) / baud)\<close>, both in \<^verbatim>\<open>u32\<close> arithmetic.
  A divisor that is zero, after wrap-around, is the fault \<open>Division_by_zero\<close>.
\<close>

definition uart_init_div :: "bool \<Rightarrow> u32 \<Rightarrow> fault + u32" where
  "uart_init_div clk_type baud =
     (if clk_type
      then (if 16 * baud = 0 then Inl Division_by_zero
            else Inr ((8 * baud + 408000000) div (16 * baud)))
      else Inr 1)"

definition uart_init_settle :: "u32 \<Rightarrow> fault + u32" where
  "uart_init_settle baud =
     (if baud = 0 then Inl Division_by_zero else Inr (3 * ((baud + 999999) div baud)))"

text \<open>
  Lines 35 to 67, the straight-line part of \<^verbatim>\<open>uart_init\<close> between its two waits:
  from the choice of the clock to the last \<^verbatim>\<open>usleep\<close>.
\<close>

definition uart_init_setup ::
  "uart_defs \<Rightarrow> uart_env \<Rightarrow> u32 \<Rightarrow> u32 \<Rightarrow> u32 \<Rightarrow> u32 \<Rightarrow> machine \<Rightarrow> fault + machine" where
  "uart_init_setup d e uart idx baud mode m1 =
     (let clk_type = clock_uart_use_src_div e idx baud;
          uart_lcr_stop = (if 1000000 < baud then UART_LCR_STOP d else 0)
      in case uart_init_div clk_type baud of
           Inl f \<Rightarrow> Inl f
         | Inr dv \<Rightarrow>
             (let m2 = wr_IER_DLAB uart 0 m1;
                  m3 = wr_LCR uart (UART_LCR_DLAB d OR UART_LCR_WORD_LENGTH_8 d) m2;
                  m4 = wr_THR_DLAB uart (ucast (ucast dv :: u8)) m3;
                  m5 = wr_IER_DLAB uart (ucast (ucast (drop_bit 8 dv) :: u8)) m4;
                  m6 = wr_LCR uart (uart_lcr_stop OR UART_LCR_WORD_LENGTH_8 d) m5;
                  m7 = usleep 20 (wr_IIR_FCR uart (UART_IIR_FCR_EN_FIFO d) m6);
                  m8 = usleep 96 (wr_MCR uart 0 m7);
                  m9 = wr_IIR_FCR uart (UART_IIR_FCR_EN_FIFO d OR UART_IIR_FCR_TX_CLR d
                                         OR UART_IIR_FCR_RX_CLR d) m8;
                  m10 = wr_MCR uart mode m9
              in case uart_init_settle baud of
                   Inl f \<Rightarrow> Inl f
                 | Inr us \<Rightarrow> Inr (usleep us m10)))"

definition uart_init ::
  "uart_defs \<Rightarrow> uart_env \<Rightarrow> u32 \<Rightarrow> u32 \<Rightarrow> u32 \<Rightarrow> machine \<Rightarrow> (fault + machine) option" where
  "uart_init d e idx baud mode m =
     (let uart = uart_ptr d e idx
      in case (if mode AND (UART_MCR_CTS_EN d OR UART_MCR_DTR d) = 0
               then uart_wait_xfer d e idx (UART_TX_IDLE d) m else Some m) of
           None \<Rightarrow> None
         | Some m1 \<Rightarrow>
             (case uart_init_setup d e uart idx baud mode m1 of
                Inl f \<Rightarrow> Some (Inl f)
              | Inr m2 \<Rightarrow>
                  (case uart_wait_xfer d e idx (UART_TX_IDLE d OR UART_RX_RDYR d) m2 of
                     None \<Rightarrow> None
                   | Some m3 \<Rightarrow> Some (Inr m3))))"

subsection \<open>\<^verbatim>\<open>uart_send\<close>\<close>

text \<open>The caller's buffer is the memory behind the pointer: \<open>buf i\<close> is \<^verbatim>\<open>buf[i]\<close>.\<close>

partial_function (option) send_wait ::
  "uart_defs \<Rightarrow> uart_env \<Rightarrow> u32 \<Rightarrow> machine \<Rightarrow> machine option" where
  "send_wait d e uart m =
     (let (lsr, m1) = rd_LSR e uart m
      in if lsr AND UART_LSR_THRE d = 0 then send_wait d e uart m1 else Some m1)"

partial_function (option) send_loop ::
  "uart_defs \<Rightarrow> uart_env \<Rightarrow> u32 \<Rightarrow> (u32 \<Rightarrow> u8) \<Rightarrow> u32 \<Rightarrow> u32 \<Rightarrow> machine \<Rightarrow> machine option" where
  "send_loop d e uart buf len i m =
     (if i \<noteq> len
      then (case send_wait d e uart m of
              None \<Rightarrow> None
            | Some m1 \<Rightarrow> send_loop d e uart buf len (i + 1) (wr_THR_DLAB uart (ucast (buf i)) m1))
      else Some m)"

definition uart_send ::
  "uart_defs \<Rightarrow> uart_env \<Rightarrow> u32 \<Rightarrow> (u32 \<Rightarrow> u8) \<Rightarrow> u32 \<Rightarrow> machine \<Rightarrow> machine option" where
  "uart_send d e idx buf len m =
     (let uart = uart_ptr d e idx in send_loop d e uart buf len 0 m)"

subsection \<open>\<^verbatim>\<open>uart_recv\<close>\<close>

text \<open>
  The inner \<^verbatim>\<open>while\<close> of the receive loop: it ends with \<open>False\<close> when a byte is ready
  and with \<open>True\<close> when it jumps to \<^verbatim>\<open>out\<close>.
\<close>

partial_function (option) recv_wait ::
  "uart_defs \<Rightarrow> uart_env \<Rightarrow> u32 \<Rightarrow> u32 \<Rightarrow> machine \<Rightarrow> (bool \<times> machine) option" where
  "recv_wait d e uart timeout m =
     (let (lsr, m1) = rd_LSR e uart m
      in if lsr AND UART_LSR_RDR d = 0
         then (let (now, m2) = get_tmr_us e m1
               in if timeout < now then Some (True, m2) else recv_wait d e uart timeout m2)
         else Some (False, m1))"

text \<open>The \<^verbatim>\<open>for\<close> loop; it returns \<^verbatim>\<open>i\<close>, the buffer and the machine.\<close>

partial_function (option) recv_loop ::
  "uart_defs \<Rightarrow> uart_env \<Rightarrow> u32 \<Rightarrow> u32 \<Rightarrow> u32 \<Rightarrow> u32 \<Rightarrow> (u32 \<Rightarrow> u8) \<Rightarrow> machine
     \<Rightarrow> (u32 \<times> (u32 \<Rightarrow> u8) \<times> machine) option" where
  "recv_loop d e uart len timeout i buf m =
     (if len \<noteq> 0 \<and> len \<le> i then Some (i, buf, m)
      else (case recv_wait d e uart timeout m of
              None \<Rightarrow> None
            | Some (out, m1) \<Rightarrow>
                if out then Some (i, buf, m1)
                else (let (b, m2) = rd_RBR e uart m1;
                          (now, m3) = get_tmr_us e m2
                      in recv_loop d e uart len (now + 250) (i + 1) (buf(i := ucast b)) m3)))"

definition uart_recv ::
  "uart_defs \<Rightarrow> uart_env \<Rightarrow> u32 \<Rightarrow> (u32 \<Rightarrow> u8) \<Rightarrow> u32 \<Rightarrow> machine
     \<Rightarrow> (u32 \<times> (u32 \<Rightarrow> u8) \<times> machine) option" where
  "uart_recv d e idx buf len m =
     (let uart = uart_ptr d e idx;
          manual_mode = (UART_MCR (uarts m uart) AND UART_MCR_RTS d \<noteq> 0);
          (now, m1) = get_tmr_us e m;
          timeout = now + 250;
          m2 = (if manual_mode
                then wr_MCR uart (UART_MCR (uarts m1 uart) AND NOT (UART_MCR_RTS d)) m1
                else m1)
      in case recv_loop d e uart len timeout 0 buf m2 of
           None \<Rightarrow> None
         | Some (i, buf', m3) \<Rightarrow>
             Some (i, buf',
               if manual_mode
               then wr_MCR uart (UART_MCR (uarts m3 uart) OR UART_MCR_RTS d) m3
               else m3))"

subsection \<open>\<^verbatim>\<open>uart_empty_fifo\<close>\<close>

text \<open>The two polling loops count their attempts in \<^verbatim>\<open>tries\<close> and stop at ten.\<close>

function fifo_wait_tx :: "uart_defs \<Rightarrow> uart_env \<Rightarrow> u32 \<Rightarrow> u32 \<Rightarrow> machine \<Rightarrow> machine" where
  "fifo_wait_tx d e uart tries m =
     (if tries < 10
      then (let (lsr, m1) = rd_LSR e uart m
            in if lsr AND UART_LSR_TMTY d = 0
               then fifo_wait_tx d e uart (tries + 1) (usleep 100 m1)
               else m1)
      else m)"
  by pat_completeness auto
termination
  by (relation "measure (\<lambda>(d, e, uart, tries, m). 10 - unat tries)")
     (auto simp: word_less_nat_alt unat_word_ariths)

function fifo_wait_rx :: "uart_defs \<Rightarrow> uart_env \<Rightarrow> u32 \<Rightarrow> u32 \<Rightarrow> machine \<Rightarrow> machine" where
  "fifo_wait_rx d e uart tries m =
     (if tries < 10
      then (let (lsr, m1) = rd_LSR e uart m
            in if lsr AND UART_LSR_RDR d \<noteq> 0
               then fifo_wait_rx d e uart (tries + 1) (usleep 100 m1)
               else m1)
      else m)"
  by pat_completeness auto
termination
  by (relation "measure (\<lambda>(d, e, uart, tries, m). 10 - unat tries)")
     (auto simp: word_less_nat_alt unat_word_ariths)

definition uart_empty_fifo :: "uart_defs \<Rightarrow> uart_env \<Rightarrow> u32 \<Rightarrow> u32 \<Rightarrow> machine \<Rightarrow> machine" where
  "uart_empty_fifo d e idx which m =
     (let uart = uart_ptr d e idx;
          m1 = usleep 96 (wr_MCR uart 0 m);
          m2 = usleep 18 (wr_IIR_FCR uart (UART_IIR_FCR_EN_FIFO d OR which) m1);
          m3 = (if UART_IIR_FCR_TX_CLR d AND which \<noteq> 0 then fifo_wait_tx d e uart 0 m2 else m2);
          m4 = (if UART_IIR_FCR_RX_CLR d AND which \<noteq> 0 then fifo_wait_rx d e uart 0 m3 else m3)
      in m4)"

subsection \<open>Two calls in a row\<close>

text \<open>
  \<^verbatim>\<open>uart_invert(idx, true, mask); uart_invert(idx, false, mask);\<close>
\<close>

definition invert_then_restore ::
  "uart_defs \<Rightarrow> uart_env \<Rightarrow> u32 \<Rightarrow> u32 \<Rightarrow> machine \<Rightarrow> machine" where
  "invert_then_restore d e idx invert_mask m =
     uart_invert d e idx False invert_mask (uart_invert d e idx True invert_mask m)"

subsection \<open>Instances for the worked examples\<close>

text \<open>
  A concrete set of header values (the 16550-style bit assignment of the Tegra X1 UART), a
  machine with every register zero, and a quiet line: transmitter empty and idle, no byte
  received, a counter that advances by one on every read. On every example line the
  half-words past the offset table are zero. The general theorems do not depend on them.
\<close>

definition sample_defs :: uart_defs where
  "sample_defs = \<lparr>UART_BASE = 0x70006000, UART_LCR_DLAB = 0x80, UART_LCR_STOP = 4,
     UART_LCR_WORD_LENGTH_8 = 3, UART_MCR_CTS_EN = 0x20, UART_MCR_DTR = 1, UART_MCR_RTS = 2,
     UART_LSR_RDR = 1, UART_LSR_THRE = 0x20, UART_LSR_TMTY = 0x40,
     UART_IIR_FCR_EN_FIFO = 1, UART_IIR_FCR_TX_CLR = 4, UART_IIR_FCR_RX_CLR = 2,
     UART_IIR_INT_MASK = 0xF, UART_IIR_NO_INT = 1, UART_IER_DLAB_IE_EORD = 0x20,
     UART_TX_IDLE = 1, UART_RX_RDYR = 2\<rparr>"

definition zero_uart :: uart_t where
  "zero_uart = \<lparr>UART_THR_DLAB = 0, UART_IER_DLAB = 0, UART_IIR_FCR = 0, UART_LCR = 0,
     UART_MCR = 0, UART_IRDA_CSR = 0\<rparr>"

definition boot :: machine where
  "boot = \<lparr>uarts = (\<lambda>_. zero_uart), lsr_reads = 0, rbr_reads = 0, iir_reads = 0,
     tmr_reads = 0, slept = [], trace = []\<rparr>"

definition idle_env :: uart_env where
  "idle_env = \<lparr>lsr_in = (\<lambda>_. 0x60), rbr_in = (\<lambda>_. 0), iir_in = (\<lambda>_. 1),
     tmr_in = (\<lambda>k. word_of_nat k), clock_uart_use_src_div = (\<lambda>_ _. True),
     past_table = (\<lambda>_. 0)\<rparr>"

text \<open>
  A receive buffer of zeros; a line on which a byte is always waiting, the bytes being
  \<open>0x41, 0x42, \<dots>\<close>; two quiet lines whose 32-bit microsecond counter, advancing by one
  per read, is read first 251 and 16 microseconds before it wraps around; a line on which
  the transmitter never becomes idle and the receiver never becomes empty; and a machine
  whose port A has the request-to-send bit set.
\<close>

definition zero_buf :: "u32 \<Rightarrow> u8" where
  "zero_buf = (\<lambda>_. 0)"

definition data_env :: uart_env where
  "data_env = \<lparr>lsr_in = (\<lambda>_. 0x61), rbr_in = (\<lambda>k. 0x41 + word_of_nat k), iir_in = (\<lambda>_. 1),
     tmr_in = (\<lambda>k. word_of_nat k), clock_uart_use_src_div = (\<lambda>_ _. True),
     past_table = (\<lambda>_. 0)\<rparr>"

definition wrap_env :: uart_env where
  "wrap_env = \<lparr>lsr_in = (\<lambda>_. 0x60), rbr_in = (\<lambda>_. 0), iir_in = (\<lambda>_. 1),
     tmr_in = (\<lambda>k. 0xFFFFFF05 + word_of_nat k), clock_uart_use_src_div = (\<lambda>_ _. True),
     past_table = (\<lambda>_. 0)\<rparr>"

definition late_env :: uart_env where
  "late_env = \<lparr>lsr_in = (\<lambda>_. 0x60), rbr_in = (\<lambda>_. 0), iir_in = (\<lambda>_. 1),
     tmr_in = (\<lambda>k. 0xFFFFFFF0 + word_of_nat k), clock_uart_use_src_div = (\<lambda>_ _. True),
     past_table = (\<lambda>_. 0)\<rparr>"

definition stuck_env :: uart_env where
  "stuck_env = \<lparr>lsr_in = (\<lambda>_. 0x01), rbr_in = (\<lambda>_. 0), iir_in = (\<lambda>_. 1),
     tmr_in = (\<lambda>k. word_of_nat k), clock_uart_use_src_div = (\<lambda>_ _. True),
     past_table = (\<lambda>_. 0)\<rparr>"

definition rts_boot :: machine where
  "rts_boot = boot\<lparr>uarts := (uarts boot)(0x70006000 := zero_uart\<lparr>UART_MCR := 2\<rparr>)\<rparr>"

declare fifo_wait_tx.simps [simp del] fifo_wait_rx.simps [simp del]

section \<open>Basic facts\<close>

lemma sample_defs_simps:
  "UART_BASE sample_defs = 0x70006000" "UART_LCR_DLAB sample_defs = 0x80"
  "UART_LCR_STOP sample_defs = 4" "UART_LCR_WORD_LENGTH_8 sample_defs = 3"
  "UART_MCR_CTS_EN sample_defs = 0x20" "UART_MCR_DTR sample_defs = 1"
  "UART_MCR_RTS sample_defs = 2" "UART_LSR_RDR sample_defs = 1"
  "UART_LSR_THRE sample_defs = 0x20" "UART_LSR_TMTY sample_defs = 0x40"
  "UART_IIR_FCR_EN_FIFO sample_defs = 1" "UART_IIR_FCR_TX_CLR sample_defs = 4"
  "UART_IIR_FCR_RX_CLR sample_defs = 2" "UART_IIR_INT_MASK sample_defs = 0xF"
  "UART_IIR_NO_INT sample_defs = 1" "UART_IER_DLAB_IE_EORD sample_defs = 0x20"
  "UART_TX_IDLE sample_defs = 1" "UART_RX_RDYR sample_defs = 2"
  by (simp_all add: sample_defs_def)

lemma boot_simps:
  "uarts boot p = zero_uart" "lsr_reads boot = 0" "rbr_reads boot = 0" "iir_reads boot = 0"
  "tmr_reads boot = 0" "slept boot = []" "trace boot = []"
  by (simp_all add: boot_def)

lemma rts_boot_simps:
  "UART_MCR (uarts rts_boot 0x70006000) = 2" "lsr_reads rts_boot = 0" "rbr_reads rts_boot = 0"
  "tmr_reads rts_boot = 0" "slept rts_boot = []" "trace rts_boot = []"
  by (simp_all add: rts_boot_def boot_def)

lemma idle_env_simps:
  "lsr_in idle_env k = 0x60" "rbr_in idle_env k = 0" "iir_in idle_env k = 1"
  "tmr_in idle_env k = word_of_nat k" "clock_uart_use_src_div idle_env idx baud = True"
  "past_table idle_env idx = 0"
  by (simp_all add: idle_env_def)

lemma sample_ptr_0: "uart_ptr sample_defs e 0 = 0x70006000"
  by (simp add: uart_ptr_def uart_base_offsets_at_def uart_base_offsets_def sample_defs_simps)

lemma sample_ptr_1: "uart_ptr sample_defs e 1 = 0x70006040"
  by (simp add: uart_ptr_def uart_base_offsets_at_def uart_base_offsets_def sample_defs_simps)

text \<open>What each access leaves of the machine.\<close>

lemma rd_LSR_simps:
  "fst (rd_LSR e u m) = lsr_in e (lsr_reads m)"
  "uarts (snd (rd_LSR e u m)) = uarts m"
  "lsr_reads (snd (rd_LSR e u m)) = Suc (lsr_reads m)"
  "rbr_reads (snd (rd_LSR e u m)) = rbr_reads m"
  "tmr_reads (snd (rd_LSR e u m)) = tmr_reads m"
  "slept (snd (rd_LSR e u m)) = slept m"
  "trace (snd (rd_LSR e u m)) = trace m @ [Read u LSR (lsr_in e (lsr_reads m))]"
  by (simp_all add: rd_LSR_def)

lemma rd_RBR_simps:
  "fst (rd_RBR e u m) = rbr_in e (rbr_reads m)"
  "uarts (snd (rd_RBR e u m)) = uarts m"
  "lsr_reads (snd (rd_RBR e u m)) = lsr_reads m"
  "rbr_reads (snd (rd_RBR e u m)) = Suc (rbr_reads m)"
  "tmr_reads (snd (rd_RBR e u m)) = tmr_reads m"
  "slept (snd (rd_RBR e u m)) = slept m"
  "trace (snd (rd_RBR e u m)) = trace m @ [Read u THR_DLAB (rbr_in e (rbr_reads m))]"
  by (simp_all add: rd_RBR_def)

lemma get_tmr_us_simps:
  "fst (get_tmr_us e m) = tmr_in e (tmr_reads m)"
  "uarts (snd (get_tmr_us e m)) = uarts m"
  "lsr_reads (snd (get_tmr_us e m)) = lsr_reads m"
  "rbr_reads (snd (get_tmr_us e m)) = rbr_reads m"
  "tmr_reads (snd (get_tmr_us e m)) = Suc (tmr_reads m)"
  "slept (snd (get_tmr_us e m)) = slept m"
  "trace (snd (get_tmr_us e m)) = trace m @ [Get_tmr (tmr_in e (tmr_reads m))]"
  by (simp_all add: get_tmr_us_def)

lemma usleep_simps:
  "uarts (usleep us m) = uarts m"
  "lsr_reads (usleep us m) = lsr_reads m"
  "rbr_reads (usleep us m) = rbr_reads m"
  "tmr_reads (usleep us m) = tmr_reads m"
  "slept (usleep us m) = slept m @ [us]"
  "trace (usleep us m) = trace m @ [Usleep us]"
  by (simp_all add: usleep_def)

lemma uarts_wr:
  "uarts (wr_THR_DLAB p v m) = (uarts m)(p := (uarts m p)\<lparr>UART_THR_DLAB := v\<rparr>)"
  "uarts (wr_IER_DLAB p v m) = (uarts m)(p := (uarts m p)\<lparr>UART_IER_DLAB := v\<rparr>)"
  "uarts (wr_IIR_FCR p v m) = (uarts m)(p := (uarts m p)\<lparr>UART_IIR_FCR := v\<rparr>)"
  "uarts (wr_LCR p v m) = (uarts m)(p := (uarts m p)\<lparr>UART_LCR := v\<rparr>)"
  "uarts (wr_MCR p v m) = (uarts m)(p := (uarts m p)\<lparr>UART_MCR := v\<rparr>)"
  "uarts (wr_IRDA_CSR p v m) = (uarts m)(p := (uarts m p)\<lparr>UART_IRDA_CSR := v\<rparr>)"
  by (simp_all add: wr_THR_DLAB_def wr_IER_DLAB_def wr_IIR_FCR_def wr_LCR_def wr_MCR_def
      wr_IRDA_CSR_def)

lemma slept_wr:
  "slept (wr_THR_DLAB p v m) = slept m"
  "slept (wr_IER_DLAB p v m) = slept m"
  "slept (wr_IIR_FCR p v m) = slept m"
  "slept (wr_LCR p v m) = slept m"
  "slept (wr_MCR p v m) = slept m"
  "slept (wr_IRDA_CSR p v m) = slept m"
  by (simp_all add: wr_THR_DLAB_def wr_IER_DLAB_def wr_IIR_FCR_def wr_LCR_def wr_MCR_def
      wr_IRDA_CSR_def)

lemma trace_wr:
  "trace (wr_THR_DLAB p v m) = trace m @ [Write p THR_DLAB v]"
  "trace (wr_IER_DLAB p v m) = trace m @ [Write p IER_DLAB v]"
  "trace (wr_IIR_FCR p v m) = trace m @ [Write p IIR_FCR v]"
  "trace (wr_LCR p v m) = trace m @ [Write p LCR v]"
  "trace (wr_MCR p v m) = trace m @ [Write p MCR v]"
  "trace (wr_IRDA_CSR p v m) = trace m @ [Write p IRDA_CSR v]"
  by (simp_all add: wr_THR_DLAB_def wr_IER_DLAB_def wr_IIR_FCR_def wr_LCR_def wr_MCR_def
      wr_IRDA_CSR_def)

lemma counters_wr:
  "lsr_reads (wr_THR_DLAB p v m) = lsr_reads m"
  "lsr_reads (wr_IER_DLAB p v m) = lsr_reads m"
  "lsr_reads (wr_IIR_FCR p v m) = lsr_reads m"
  "lsr_reads (wr_LCR p v m) = lsr_reads m"
  "lsr_reads (wr_MCR p v m) = lsr_reads m"
  "lsr_reads (wr_IRDA_CSR p v m) = lsr_reads m"
  "rbr_reads (wr_MCR p v m) = rbr_reads m"
  "tmr_reads (wr_MCR p v m) = tmr_reads m"
  by (simp_all add: wr_THR_DLAB_def wr_IER_DLAB_def wr_IIR_FCR_def wr_LCR_def wr_MCR_def
      wr_IRDA_CSR_def)

lemma or_and_not_mask: "(x OR M) AND NOT M = x AND NOT (M::u32)"
  by (rule bit_eqI) (auto simp: bit_simps)

lemma and_not_and_not_mask: "(x AND NOT M) AND NOT M = x AND NOT (M::u32)"
  by (rule bit_eqI) (auto simp: bit_simps)

lemma and_not_mask_id: "(x AND NOT M = x) = (x AND M = (0::u32))"
  by (auto simp: bit_eq_iff bit_simps)

lemma and_not_and_self: "(x AND NOT r) AND r = (0::u32)"
  by (rule bit_eqI) (auto simp: bit_simps)

lemma or_and_self: "(x OR r) AND r = (r::u32)"
  by (rule bit_eqI) (auto simp: bit_simps)

lemma uart_ptr_past_table:
  assumes "5 \<le> idx"
  shows "uart_ptr d e idx = UART_BASE d + ucast (past_table e idx)"
proof -
  have "5 \<le> unat idx" using assms by (simp add: word_le_nat_alt)
  then show ?thesis by (simp add: uart_ptr_def uart_base_offsets_at_def uart_base_offsets_def)
qed

lemma uart_ptr_in_table:
  assumes "idx < 5"
  shows "uart_ptr d e idx = UART_BASE d + ucast (uart_base_offsets ! unat idx)"
proof -
  have "unat idx < 5" using assms by (simp add: word_less_nat_alt)
  then show ?thesis by (simp add: uart_ptr_def uart_base_offsets_at_def uart_base_offsets_def)
qed

lemma word_of_nat_Suc_less:
  assumes "Suc k < 2 ^ 32"
  shows "(word_of_nat k :: u32) < word_of_nat (Suc k)"
proof -
  have "unat (word_of_nat k :: u32) = k mod 2 ^ LENGTH(32)"
    by (rule unat_of_nat)
  then have a: "unat (word_of_nat k :: u32) = k" using assms by simp
  have "unat (word_of_nat (Suc k) :: u32) = Suc k mod 2 ^ LENGTH(32)"
    by (rule unat_of_nat)
  then have b: "unat (word_of_nat (Suc k) :: u32) = Suc k" using assms by simp
  show ?thesis using a b by (simp add: word_less_nat_alt)
qed

section \<open>Polarity inversion\<close>

text \<open>
  C10. \<^verbatim>\<open>uart_invert\<close> writes one register, the polarity register of the addressed
  block, once: the machine after the call is the machine before it with that register
  replaced and that one write added to the events, and the new value agrees with the
  old one on every bit outside the mask.
\<close>

theorem uart_invert_frame:
  assumes "uart = uart_ptr d e idx"
  shows "\<exists>v. uart_invert d e idx enable M m
            = m\<lparr>uarts := (uarts m)(uart := (uarts m uart)\<lparr>UART_IRDA_CSR := v\<rparr>),
                trace := trace m @ [Write uart IRDA_CSR v]\<rparr>
          \<and> v AND NOT M = UART_IRDA_CSR (uarts m uart) AND NOT M"
proof (cases enable)
  case True
  then have "uart_invert d e idx enable M m
      = m\<lparr>uarts := (uarts m)(uart := (uarts m uart)
               \<lparr>UART_IRDA_CSR := UART_IRDA_CSR (uarts m uart) OR M\<rparr>),
          trace := trace m @ [Write uart IRDA_CSR (UART_IRDA_CSR (uarts m uart) OR M)]\<rparr>"
    using assms by (simp add: uart_invert_def wr_IRDA_CSR_def Let_def)
  then show ?thesis using or_and_not_mask by blast
next
  case False
  then have "uart_invert d e idx enable M m
      = m\<lparr>uarts := (uarts m)(uart := (uarts m uart)
               \<lparr>UART_IRDA_CSR := UART_IRDA_CSR (uarts m uart) AND NOT M\<rparr>),
          trace := trace m @ [Write uart IRDA_CSR (UART_IRDA_CSR (uarts m uart) AND NOT M)]\<rparr>"
    using assms by (simp add: uart_invert_def wr_IRDA_CSR_def Let_def)
  then show ?thesis using and_not_and_not_mask by blast
qed

theorem uart_invert_frame_witness:
  "0x70006040 = uart_ptr sample_defs idle_env 1 \<and>
   (\<exists>v. uart_invert sample_defs idle_env 1 True 5 boot
            = boot\<lparr>uarts := (uarts boot)(0x70006040 :=
                     (uarts boot 0x70006040)\<lparr>UART_IRDA_CSR := v\<rparr>),
                   trace := trace boot @ [Write 0x70006040 IRDA_CSR v]\<rparr>
          \<and> v AND NOT 5 = UART_IRDA_CSR (uarts boot 0x70006040) AND NOT 5)"
proof -
  have p: "0x70006040 = uart_ptr sample_defs idle_env 1" by (simp add: sample_ptr_1)
  from p uart_invert_frame [OF p, of True 5 boot] show ?thesis by blast
qed

text \<open>
  C5, as the code has it. Setting the bits of a mask and clearing them again leaves the
  polarity register with the bits of the mask clear, whatever they were before. The
  register is back at its first value exactly when none of the mask's bits was set in it.
\<close>

theorem invert_then_restore_clears:
  assumes "uart = uart_ptr d e idx"
  shows "UART_IRDA_CSR (uarts (invert_then_restore d e idx M m) uart)
           = UART_IRDA_CSR (uarts m uart) AND NOT M
         \<and> (UART_IRDA_CSR (uarts (invert_then_restore d e idx M m) uart)
              = UART_IRDA_CSR (uarts m uart)
              \<longleftrightarrow> UART_IRDA_CSR (uarts m uart) AND M = 0)"
proof -
  let ?x = "UART_IRDA_CSR (uarts m uart)"
  have v: "UART_IRDA_CSR (uarts (invert_then_restore d e idx M m) uart) = ?x AND NOT M"
    using assms by (simp add: invert_then_restore_def uart_invert_def Let_def uarts_wr or_and_not_mask)
  show ?thesis using v and_not_mask_id [of ?x M] by simp
qed

theorem invert_then_restore_clears_witness:
  "0x70006000 = uart_ptr sample_defs idle_env 0 \<and>
   UART_IRDA_CSR (uarts (wr_IRDA_CSR 0x70006000 3 boot) 0x70006000) = 3 \<and>
   UART_IRDA_CSR (uarts (invert_then_restore sample_defs idle_env 0 6
                           (wr_IRDA_CSR 0x70006000 3 boot)) 0x70006000) = 1"
proof -
  have p: "0x70006000 = uart_ptr sample_defs idle_env 0" by (simp add: sample_ptr_0)
  have x: "UART_IRDA_CSR (uarts (wr_IRDA_CSR 0x70006000 3 boot) 0x70006000) = 3"
    by (simp add: uarts_wr)
  from invert_then_restore_clears [OF p, of 6 "wr_IRDA_CSR 0x70006000 3 boot"] x
  have "UART_IRDA_CSR (uarts (invert_then_restore sample_defs idle_env 0 6
                           (wr_IRDA_CSR 0x70006000 3 boot)) 0x70006000) = 1"
    by simp
  with p x show ?thesis by blast
qed

text \<open>
  The round trip as the claim states it fails when a bit of the mask is already set:
  the register holds 1, the mask is 1, and after the two calls the register holds 0.
\<close>

theorem invert_round_trip_counterexample:
  "UART_IRDA_CSR (uarts (wr_IRDA_CSR 0x70006000 1 boot) 0x70006000) = 1 \<and>
   UART_IRDA_CSR (uarts (invert_then_restore sample_defs idle_env 0 1
                           (wr_IRDA_CSR 0x70006000 1 boot)) 0x70006000) = 0"
  by (simp add: invert_then_restore_def uart_invert_def Let_def sample_ptr_0 uarts_wr)

section \<open>Initialisation\<close>

lemma wait_tx_idle_frame:
  assumes "wait_tx_idle d e uart m = Some m'"
  shows "uarts m' = uarts m \<and> slept m' = slept m"
  using assms
proof (induction d e uart m m'
    rule: wait_tx_idle.raw_induct [rotated 1, consumes 1, case_names step])
  case (step f d e uart m m')
  show ?case
  proof (cases "lsr_in e (lsr_reads m) AND UART_LSR_TMTY d = 0")
    case True
    with step(2) have "f d e uart (snd (rd_LSR e uart m)) = Some m'"
      by (simp add: split_beta rd_LSR_simps)
    from step(1) [OF this] show ?thesis by (simp add: rd_LSR_simps)
  next
    case False
    with step(2) show ?thesis by (auto simp: split_beta rd_LSR_simps)
  qed
qed

lemma wait_rx_drain_frame:
  assumes "wait_rx_drain d e uart m = Some m'"
  shows "uarts m' = uarts m \<and> slept m' = slept m"
  using assms
proof (induction d e uart m m'
    rule: wait_rx_drain.raw_induct [rotated 1, consumes 1, case_names step])
  case (step f d e uart m m')
  show ?case
  proof (cases "lsr_in e (lsr_reads m) AND UART_LSR_RDR d = 0")
    case False
    with step(2)
    have "f d e uart (snd (rd_RBR e uart (snd (rd_LSR e uart m)))) = Some m'"
      by (simp add: split_beta rd_LSR_simps)
    from step(1) [OF this] show ?thesis by (simp add: rd_LSR_simps rd_RBR_simps)
  next
    case True
    with step(2) show ?thesis by (auto simp: split_beta rd_LSR_simps)
  qed
qed

lemma uart_wait_xfer_frame:
  assumes "uart_wait_xfer d e idx which m = Some m'"
  shows "uarts m' = uarts m \<and> slept m' = slept m"
  using assms
  by (auto simp: uart_wait_xfer_def Let_def split: option.splits if_splits
      dest!: wait_tx_idle_frame wait_rx_drain_frame)

text \<open>A line that reports the transmitter idle and no byte received ends both waits.\<close>

lemma wait_tx_idle_ready:
  assumes "lsr_in e (lsr_reads m) AND UART_LSR_TMTY d \<noteq> 0"
  shows "wait_tx_idle d e uart m = Some (snd (rd_LSR e uart m))"
  using assms by (subst wait_tx_idle.simps) (simp add: split_beta rd_LSR_simps)

lemma wait_rx_drain_empty:
  assumes "lsr_in e (lsr_reads m) AND UART_LSR_RDR d = 0"
  shows "wait_rx_drain d e uart m = Some (snd (rd_LSR e uart m))"
  using assms by (subst wait_rx_drain.simps) (simp add: split_beta rd_LSR_simps)

lemma uart_wait_xfer_quiet:
  assumes "\<forall>k. lsr_in e k AND UART_LSR_TMTY d \<noteq> 0 \<and> lsr_in e k AND UART_LSR_RDR d = 0"
  shows "\<exists>m'. uart_wait_xfer d e idx which m = Some m'"
  using assms
  by (simp add: uart_wait_xfer_def Let_def wait_tx_idle_ready wait_rx_drain_empty)

text \<open>The straight-line part of \<^verbatim>\<open>uart_init\<close>, when neither division is by zero.\<close>

lemma uart_init_setup_result:
  assumes dv: "uart_init_div (clock_uart_use_src_div e idx baud) baud = Inr dv"
    and us: "uart_init_settle baud = Inr us"
  shows "\<exists>m2. uart_init_setup d e uart idx baud mode m1 = Inr m2
           \<and> trace m2 = trace m1 @
               [Write uart IER_DLAB 0,
                Write uart LCR (UART_LCR_DLAB d OR UART_LCR_WORD_LENGTH_8 d),
                Write uart THR_DLAB (ucast (ucast dv :: u8)),
                Write uart IER_DLAB (ucast (ucast (drop_bit 8 dv) :: u8)),
                Write uart LCR ((if 1000000 < baud then UART_LCR_STOP d else 0)
                                OR UART_LCR_WORD_LENGTH_8 d),
                Write uart IIR_FCR (UART_IIR_FCR_EN_FIFO d),
                Usleep 20,
                Write uart MCR 0,
                Usleep 96,
                Write uart IIR_FCR (UART_IIR_FCR_EN_FIFO d OR UART_IIR_FCR_TX_CLR d
                                    OR UART_IIR_FCR_RX_CLR d),
                Write uart MCR mode,
                Usleep us]
           \<and> slept m2 = slept m1 @ [20, 96, us]
           \<and> UART_LCR (uarts m2 uart)
               = (if 1000000 < baud then UART_LCR_STOP d else 0) OR UART_LCR_WORD_LENGTH_8 d
           \<and> UART_THR_DLAB (uarts m2 uart) = ucast (ucast dv :: u8)
           \<and> UART_IER_DLAB (uarts m2 uart) = ucast (ucast (drop_bit 8 dv) :: u8)
           \<and> UART_MCR (uarts m2 uart) = mode"
proof -
  define m2 where "m2 = usleep us (wr_MCR uart mode
     (wr_IIR_FCR uart (UART_IIR_FCR_EN_FIFO d OR UART_IIR_FCR_TX_CLR d OR UART_IIR_FCR_RX_CLR d)
     (usleep 96 (wr_MCR uart 0 (usleep 20 (wr_IIR_FCR uart (UART_IIR_FCR_EN_FIFO d)
     (wr_LCR uart ((if 1000000 < baud then UART_LCR_STOP d else 0) OR UART_LCR_WORD_LENGTH_8 d)
     (wr_IER_DLAB uart (ucast (ucast (drop_bit 8 dv) :: u8))
     (wr_THR_DLAB uart (ucast (ucast dv :: u8))
     (wr_LCR uart (UART_LCR_DLAB d OR UART_LCR_WORD_LENGTH_8 d)
     (wr_IER_DLAB uart 0 m1)))))))))))"
  have r: "uart_init_setup d e uart idx baud mode m1 = Inr m2"
    using dv us by (simp add: uart_init_setup_def Let_def m2_def)
  have t: "trace m2 = trace m1 @
               [Write uart IER_DLAB 0,
                Write uart LCR (UART_LCR_DLAB d OR UART_LCR_WORD_LENGTH_8 d),
                Write uart THR_DLAB (ucast (ucast dv :: u8)),
                Write uart IER_DLAB (ucast (ucast (drop_bit 8 dv) :: u8)),
                Write uart LCR ((if 1000000 < baud then UART_LCR_STOP d else 0)
                                OR UART_LCR_WORD_LENGTH_8 d),
                Write uart IIR_FCR (UART_IIR_FCR_EN_FIFO d),
                Usleep 20,
                Write uart MCR 0,
                Usleep 96,
                Write uart IIR_FCR (UART_IIR_FCR_EN_FIFO d OR UART_IIR_FCR_TX_CLR d
                                    OR UART_IIR_FCR_RX_CLR d),
                Write uart MCR mode,
                Usleep us]"
    by (simp add: m2_def trace_wr usleep_simps)
  have s: "slept m2 = slept m1 @ [20, 96, us]"
    by (simp add: m2_def slept_wr usleep_simps)
  have a: "UART_LCR (uarts m2 uart)
               = (if 1000000 < baud then UART_LCR_STOP d else 0) OR UART_LCR_WORD_LENGTH_8 d"
    by (simp add: m2_def uarts_wr usleep_simps)
  have b: "UART_THR_DLAB (uarts m2 uart) = ucast (ucast dv :: u8)"
    by (simp add: m2_def uarts_wr usleep_simps)
  have c: "UART_IER_DLAB (uarts m2 uart) = ucast (ucast (drop_bit 8 dv) :: u8)"
    by (simp add: m2_def uarts_wr usleep_simps)
  have e: "UART_MCR (uarts m2 uart) = mode"
    by (simp add: m2_def uarts_wr usleep_simps)
  show ?thesis using r t s a b c e by blast
qed

lemma uart_init_div_defined:
  assumes "clk_type \<longrightarrow> 16 * baud \<noteq> 0"
  shows "\<exists>dv. uart_init_div clk_type baud = Inr dv"
  using assms by (simp add: uart_init_div_def)

text \<open>What a call of \<^verbatim>\<open>uart_init\<close> that returns has gone through.\<close>

lemma uart_init_returns:
  assumes ret: "uart_init d e idx baud mode m = Some (Inr m')"
  shows "\<exists>m1 m2. uart_init_setup d e (uart_ptr d e idx) idx baud mode m1 = Inr m2
           \<and> uarts m1 = uarts m \<and> slept m1 = slept m
           \<and> uarts m' = uarts m2 \<and> slept m' = slept m2"
proof -
  define w where "w = (if mode AND (UART_MCR_CTS_EN d OR UART_MCR_DTR d) = 0
                 then uart_wait_xfer d e idx (UART_TX_IDLE d) m else Some m)"
  from ret obtain m1 where w1: "w = Some m1"
    unfolding uart_init_def Let_def w_def [symmetric]
    by (auto split: option.splits)
  have f1: "uarts m1 = uarts m \<and> slept m1 = slept m"
    using w1 uart_wait_xfer_frame [of d e idx "UART_TX_IDLE d" m m1]
    by (auto simp: w_def split: if_splits)
  from ret w1 obtain m2
    where s: "uart_init_setup d e (uart_ptr d e idx) idx baud mode m1 = Inr m2"
    unfolding uart_init_def Let_def w_def [symmetric]
    by (auto split: sum.splits)
  from ret w1 s
  have "uart_wait_xfer d e idx (UART_TX_IDLE d OR UART_RX_RDYR d) m2 = Some m'"
    unfolding uart_init_def Let_def w_def [symmetric]
    by (auto split: option.splits)
  from uart_wait_xfer_frame [OF this] have f2: "uarts m' = uarts m2 \<and> slept m' = slept m2" .
  show ?thesis using s f1 f2 by blast
qed

text \<open>
  Once the first wait has ended, \<^verbatim>\<open>uart_init\<close> is the straight-line part followed by
  the last wait.
\<close>

lemma uart_init_after_wait:
  assumes "(if mode AND (UART_MCR_CTS_EN d OR UART_MCR_DTR d) = 0
            then uart_wait_xfer d e idx (UART_TX_IDLE d) m else Some m) = Some ma"
    and "uart_init_setup d e (uart_ptr d e idx) idx baud mode ma = Inr mb"
  shows "uart_init d e idx baud mode m
         = (case uart_wait_xfer d e idx (UART_TX_IDLE d OR UART_RX_RDYR d) mb of
              None \<Rightarrow> None
            | Some m3 \<Rightarrow> Some (Inr m3))"
  unfolding uart_init_def Let_def by (simp only: assms option.case sum.case)

lemma uart_init_quiet:
  assumes quiet: "\<forall>k. lsr_in e k AND UART_LSR_TMTY d \<noteq> 0 \<and> lsr_in e k AND UART_LSR_RDR d = 0"
    and dv: "uart_init_div (clock_uart_use_src_div e idx baud) baud = Inr dv"
    and us: "uart_init_settle baud = Inr us"
  shows "\<exists>m'. uart_init d e idx baud mode m = Some (Inr m')"
proof -
  define w where "w = (if mode AND (UART_MCR_CTS_EN d OR UART_MCR_DTR d) = 0
                 then uart_wait_xfer d e idx (UART_TX_IDLE d) m else Some m)"
  from uart_wait_xfer_quiet [OF quiet, of idx "UART_TX_IDLE d" m]
  have "\<exists>m1. w = Some m1" by (simp add: w_def)
  then obtain m1 where w1: "w = Some m1" by blast
  from uart_init_setup_result [OF dv us, of d "uart_ptr d e idx" mode m1]
  obtain m2 where s: "uart_init_setup d e (uart_ptr d e idx) idx baud mode m1 = Inr m2"
    by blast
  from uart_wait_xfer_quiet [OF quiet, of idx "UART_TX_IDLE d OR UART_RX_RDYR d" m2]
  obtain m3 where f: "uart_wait_xfer d e idx (UART_TX_IDLE d OR UART_RX_RDYR d) m2 = Some m3"
    by blast
  have "uart_init d e idx baud mode m = Some (Inr m3)"
    unfolding uart_init_def Let_def w_def [symmetric] by (simp add: w1 s f)
  then show ?thesis by blast
qed

lemma idle_env_line:
  "\<forall>k. lsr_in idle_env k AND UART_LSR_TMTY sample_defs \<noteq> 0
       \<and> lsr_in idle_env k AND UART_LSR_RDR sample_defs = 0"
  by (simp add: idle_env_simps sample_defs_simps)

subsection \<open>The divisor\<close>

lemma unat_div_expr:
  fixes B :: u32
  assumes "unat B < 2 ^ 28"
  shows "unat ((8 * B + 408000000) div (16 * B)) = (8 * unat B + 408000000) div (16 * unat B)"
proof -
  have a: "unat (16 * B) = 16 * unat B"
    using assms by (simp add: unat_word_ariths)
  have b: "unat (8 * B + 408000000) = 8 * unat B + 408000000"
    using assms by (simp add: unat_word_ariths)
  show ?thesis by (simp add: unat_div a b)
qed

lemma round_closest_nat:
  assumes "0 < (b::nat)"
  shows "round (408000000 / (16 * real b)) = int ((8 * b + 408000000) div (16 * b))"
proof -
  have "408000000 / (16 * real b) + 1 / 2 = real (8 * b + 408000000) / real (16 * b)"
    using assms by (simp add: field_simps)
  then have "round (408000000 / (16 * real b))
             = \<lfloor>real (8 * b + 408000000) / real (16 * b)\<rfloor>"
    by (simp add: round_def)
  also have "\<dots> = int ((8 * b + 408000000) div (16 * b))"
    by (rule floor_divide_of_nat_eq)
  finally show ?thesis .
qed

text \<open>
  C1, as the code has it. With a divided clock source and a baud rate below \<open>2\<^sup>2\<^sup>8\<close>
  (so that \<^verbatim>\<open>16 * baud\<close> fits in 32 bits), the divisor is the integer nearest to
  \<open>408000000 / (16 * baud)\<close>, halves rounded up: \<open>round x\<close> is \<open>\<lfloor>x + 1/2\<rfloor>\<close>. The
  examples are 115200 baud, where the quotient is 221.35, and 51000000 baud, where it is
  exactly one half.
\<close>

theorem uart_init_div_round_closest:
  assumes "0 < baud" and "baud < 0x10000000"
  shows "\<exists>dv. uart_init_div True baud = Inr dv
           \<and> int (unat dv) = round (408000000 / (16 * real (unat baud)))"
proof -
  have pos: "0 < unat baud" using assms(1) by (simp add: word_less_nat_alt)
  have lt: "unat baud < 2 ^ 28" using assms(2) by (simp add: word_less_nat_alt)
  have "unat (16 * baud) = 16 * unat baud"
    using lt by (simp add: unat_word_ariths)
  with pos have nz: "16 * baud \<noteq> 0" by (metis mult_is_0 not_less_zero unat_0 zero_neq_numeral)
  have "uart_init_div True baud = Inr ((8 * baud + 408000000) div (16 * baud))"
    using nz by (simp add: uart_init_div_def)
  moreover have "int (unat ((8 * baud + 408000000) div (16 * baud)))
                 = round (408000000 / (16 * real (unat baud)))"
    by (simp only: unat_div_expr [OF lt] round_closest_nat [OF pos])
  ultimately show ?thesis by simp
qed

theorem uart_init_div_round_closest_witness:
  "(0::u32) < 115200 \<and> (115200::u32) < 0x10000000
   \<and> uart_init_div True 115200 = Inr 221
   \<and> round (408000000 / (16 * real (unat (115200::u32)))) = 221
   \<and> uart_init_div True 51000000 = Inr 1
   \<and> round (408000000 / (16 * real (unat (51000000::u32)))) = 1"
  using uart_init_div_round_closest [of 115200] uart_init_div_round_closest [of 51000000]
  by (simp add: uart_init_div_def)

text \<open>
  From \<open>2\<^sup>2\<^sup>8\<close> on the product \<^verbatim>\<open>16 * baud\<close> wraps around. At
  \<open>baud = 2\<^sup>2\<^sup>8 + 1\<close> the code divides by 16 and gets 159717728, where the nearest
  integer to \<open>408000000 / (16 * baud)\<close> is 0.
\<close>

theorem uart_init_div_counterexample:
  "uart_init_div True 268435457 = Inr 159717728 \<and>
   round (408000000 / (16 * real (unat (268435457::u32)))) = 0"
  by (simp add: uart_init_div_def round_def)

lemma uart_init_div_by_zero: "uart_init_div True 0x10000000 = Inl Division_by_zero"
  by (simp add: uart_init_div_def)


subsection \<open>The settle delay\<close>

lemma ceiling_nat:
  assumes "0 < (b::nat)"
  shows "\<lceil>1000000 / real b\<rceil> = int ((b + 999999) div b)"
proof -
  define q where "q = (b + 999999) div b"
  have lo: "b * q \<le> b + 999999"
    unfolding q_def by (rule times_div_less_eq_dividend)
  have hi: "b + 999999 < b + b * q"
    unfolding q_def using assms by (rule dividend_less_times_div)
  have rb: "0 < real b" using assms by simp
  have "b * q < b + 1000000" using lo by arith
  then have "real (b * q) < real (b + 1000000)"
    by (simp only: of_nat_less_iff)
  then have l: "real_of_int (int q) - 1 < 1000000 / real b"
    using rb by (simp add: field_simps)
  have "1000000 \<le> b * q" using hi by arith
  then have "real 1000000 \<le> real (b * q)"
    by (simp only: of_nat_le_iff)
  then have u: "1000000 / real b \<le> real_of_int (int q)"
    using rb by (simp add: field_simps)
  have "\<lceil>1000000 / real b\<rceil> = int q"
    using l u by (rule ceiling_unique)
  then show ?thesis by (simp add: q_def)
qed

lemma unat_settle_expr:
  fixes B :: u32
  assumes "0 < unat B" and "unat B + 999999 < 2 ^ 32"
  shows "unat (3 * ((B + 999999) div B)) = 3 * ((unat B + 999999) div unat B)"
proof -
  have a: "unat (B + 999999) = unat B + 999999"
    using assms by (simp add: unat_word_ariths)
  have "(unat B + 999999) div unat B \<le> 1000000"
  proof -
    have "(unat B + 999999) div unat B = 1 + 999999 div unat B"
      using assms(1) by simp
    also have "\<dots> \<le> 1 + 999999" by (simp add: div_le_dividend)
    finally show ?thesis by simp
  qed
  then have lt: "3 * ((unat B + 999999) div unat B) < 2 ^ 32" by simp
  have c: "unat ((B + 999999) div B) = (unat B + 999999) div unat B"
    by (simp only: unat_div a)
  have "unat (3 * ((B + 999999) div B)) = (3 * unat ((B + 999999) div B)) mod 2 ^ 32"
    by (simp add: unat_word_ariths)
  also have "\<dots> = 3 * ((unat B + 999999) div unat B)"
    using lt by (simp only: c mod_less)
  finally show ?thesis .
qed

text \<open>
  C8, as the code has it. When \<^verbatim>\<open>baud + 999999\<close> fits in 32 bits, that is for a baud
  rate from 1 to \<open>2\<^sup>3\<^sup>2 - 1000000\<close>, the settle delay is defined and is
  \<open>3 * \<lceil>1000000 / baud\<rceil>\<close> microseconds. It is what \<^verbatim>\<open>uart_init\<close> asks for: whenever
  the divisor is defined, the register sequence that follows the first wait ends with
  this \<^verbatim>\<open>usleep\<close>, after those of 20 and 96 microseconds; a call that returns has slept
  exactly these three times; on a line that reports the transmitter idle and no byte
  received the call does return; and a call whose first wait has ended is that register
  sequence followed by the last wait, whether or not the last wait ends.
\<close>

theorem uart_init_settle_delay:
  assumes pos: "0 < baud" and fits: "baud \<le> 0xFFF0BDC0"
  shows "\<exists>us. uart_init_settle baud = Inr us
           \<and> int (unat us) = 3 * \<lceil>1000000 / real (unat baud)\<rceil>
           \<and> ((clock_uart_use_src_div e idx baud \<longrightarrow> 16 * baud \<noteq> 0) \<longrightarrow>
                (\<exists>m2. uart_init_setup d e uart idx baud mode m1 = Inr m2
                   \<and> slept m2 = slept m1 @ [20, 96, us]
                   \<and> last (trace m2) = Usleep us))
           \<and> (\<forall>m'. uart_init d e idx baud mode m = Some (Inr m') \<longrightarrow>
                slept m' = slept m @ [20, 96, us])
           \<and> ((clock_uart_use_src_div e idx baud \<longrightarrow> 16 * baud \<noteq> 0)
               \<and> (\<forall>k. lsr_in e k AND UART_LSR_TMTY d \<noteq> 0 \<and> lsr_in e k AND UART_LSR_RDR d = 0)
               \<longrightarrow> (\<exists>m'. uart_init d e idx baud mode m = Some (Inr m')))
           \<and> (\<forall>ma mb. (if mode AND (UART_MCR_CTS_EN d OR UART_MCR_DTR d) = 0
                        then uart_wait_xfer d e idx (UART_TX_IDLE d) m else Some m) = Some ma
                     \<and> uart_init_setup d e (uart_ptr d e idx) idx baud mode ma = Inr mb
                \<longrightarrow> uart_init d e idx baud mode m
                      = (case uart_wait_xfer d e idx (UART_TX_IDLE d OR UART_RX_RDYR d) mb of
                           None \<Rightarrow> None
                         | Some m3 \<Rightarrow> Some (Inr m3)))"
proof -
  define us where "us = 3 * ((baud + 999999) div baud)"
  have nz: "baud \<noteq> 0" using pos by auto
  have us: "uart_init_settle baud = Inr us"
    using nz by (simp add: uart_init_settle_def us_def)
  have upos: "0 < unat baud" using nz by (simp add: unat_gt_0)
  have lt: "unat baud + 999999 < 2 ^ 32"
    using fits by (simp add: word_le_nat_alt)
  have "int (unat us) = 3 * int ((unat baud + 999999) div unat baud)"
    by (simp add: us_def unat_settle_expr [OF upos lt])
  also have "\<dots> = 3 * \<lceil>1000000 / real (unat baud)\<rceil>"
    by (simp only: ceiling_nat [OF upos])
  finally have val: "int (unat us) = 3 * \<lceil>1000000 / real (unat baud)\<rceil>" .
  have stp: "\<exists>m2. uart_init_setup d e uart idx baud mode m1 = Inr m2
                   \<and> slept m2 = slept m1 @ [20, 96, us]
                   \<and> last (trace m2) = Usleep us"
    if "clock_uart_use_src_div e idx baud \<longrightarrow> 16 * baud \<noteq> 0"
  proof -
    from uart_init_div_defined [OF that] obtain dv
      where dv: "uart_init_div (clock_uart_use_src_div e idx baud) baud = Inr dv" ..
    from uart_init_setup_result [OF dv us, of d uart mode m1] show ?thesis
      by auto
  qed
  have ret: "slept m' = slept m @ [20, 96, us]"
    if r: "uart_init d e idx baud mode m = Some (Inr m')" for m'
  proof -
    from uart_init_returns [OF r] obtain ma mb
      where s: "uart_init_setup d e (uart_ptr d e idx) idx baud mode ma = Inr mb"
        and f: "slept ma = slept m" "slept m' = slept mb"
      by blast
    from s obtain dv
      where dv: "uart_init_div (clock_uart_use_src_div e idx baud) baud = Inr dv"
      by (auto simp: uart_init_setup_def Let_def split: sum.splits)
    from uart_init_setup_result [OF dv us, of d "uart_ptr d e idx" mode ma] s
    have "slept mb = slept ma @ [20, 96, us]" by auto
    with f show ?thesis by simp
  qed
  have quiet: "\<exists>m'. uart_init d e idx baud mode m = Some (Inr m')"
    if a: "clock_uart_use_src_div e idx baud \<longrightarrow> 16 * baud \<noteq> 0"
      and q: "\<forall>k. lsr_in e k AND UART_LSR_TMTY d \<noteq> 0 \<and> lsr_in e k AND UART_LSR_RDR d = 0"
  proof -
    from uart_init_div_defined [OF a] obtain dv
      where dv: "uart_init_div (clock_uart_use_src_div e idx baud) baud = Inr dv" ..
    from uart_init_quiet [OF q dv us] show ?thesis .
  qed
  show ?thesis
    using us val stp ret quiet uart_init_after_wait [of mode d e idx m _ baud] by blast
qed

theorem uart_init_settle_delay_witness:
  "(0::u32) < 115200 \<and> (115200::u32) \<le> 0xFFF0BDC0
   \<and> uart_init_settle 115200 = Inr 27
   \<and> 3 * \<lceil>1000000 / real (unat (115200::u32))\<rceil> = 27
   \<and> (\<exists>m2. uart_init_setup sample_defs idle_env 0x70006000 0 115200 0 boot = Inr m2
        \<and> slept m2 = [20, 96, 27] \<and> last (trace m2) = Usleep 27)
   \<and> (\<exists>m'. uart_init sample_defs idle_env 0 115200 0 boot = Some (Inr m')
        \<and> slept m' = [20, 96, 27])"
proof -
  have p: "(0::u32) < 115200" and f: "(115200::u32) \<le> 0xFFF0BDC0" by simp_all
  have c: "clock_uart_use_src_div idle_env 0 115200 \<longrightarrow> 16 * (115200::u32) \<noteq> 0" by simp
  from uart_init_settle_delay [OF p f, of idle_env 0 sample_defs "0x70006000" 0 boot boot]
  obtain us where us: "uart_init_settle 115200 = Inr us"
    and v: "int (unat us) = 3 * \<lceil>1000000 / real (unat (115200::u32))\<rceil>"
    and s: "\<exists>m2. uart_init_setup sample_defs idle_env 0x70006000 0 115200 0 boot = Inr m2
                   \<and> slept m2 = slept boot @ [20, 96, us]
                   \<and> last (trace m2) = Usleep us"
    and r: "\<forall>m'. uart_init sample_defs idle_env 0 115200 0 boot = Some (Inr m') \<longrightarrow>
                slept m' = slept boot @ [20, 96, us]"
    and q: "\<exists>m'. uart_init sample_defs idle_env 0 115200 0 boot = Some (Inr m')"
    using c idle_env_line by blast
  from us have e: "us = 27" by (simp add: uart_init_settle_def)
  from v e have "3 * \<lceil>1000000 / real (unat (115200::u32))\<rceil> = 27" by simp
  moreover from us e have "uart_init_settle 115200 = Inr 27" by simp
  moreover from s e
  have "\<exists>m2. uart_init_setup sample_defs idle_env 0x70006000 0 115200 0 boot = Inr m2
        \<and> slept m2 = [20, 96, 27] \<and> last (trace m2) = Usleep 27"
    by (simp add: boot_simps)
  moreover from r q e
  have "\<exists>m'. uart_init sample_defs idle_env 0 115200 0 boot = Some (Inr m')
        \<and> slept m' = [20, 96, 27]"
    by (auto simp: boot_simps)
  ultimately show ?thesis using p f by blast
qed

text \<open>
  Above that bound the sum wraps around. At \<open>baud = 2\<^sup>3\<^sup>2 - 1\<close> the code computes
  \<open>3 * (999998 div baud) = 0\<close>, where \<open>3 * \<lceil>1000000 / baud\<rceil>\<close> is 3.
\<close>

theorem uart_init_settle_counterexample:
  "uart_init_settle 0xFFFFFFFF = Inr 0 \<and>
   3 * \<lceil>1000000 / real (unat (0xFFFFFFFF::u32))\<rceil> = 3"
  by (simp add: uart_init_settle_def ceiling_eq_iff)

subsection \<open>The stop bits\<close>

lemma stop_flag_iff:
  assumes flag: "UART_LCR_STOP d \<noteq> 0"
    and apart: "UART_LCR_WORD_LENGTH_8 d AND UART_LCR_STOP d = 0"
  shows "(((if 1000000 < (baud::u32) then UART_LCR_STOP d else 0) OR UART_LCR_WORD_LENGTH_8 d)
          AND UART_LCR_STOP d \<noteq> 0) = (1000000 < baud)"
proof (cases "1000000 < baud")
  case True
  have "(UART_LCR_STOP d OR UART_LCR_WORD_LENGTH_8 d) AND UART_LCR_STOP d = UART_LCR_STOP d"
    by (rule bit_eqI) (auto simp: bit_simps)
  with True flag show ?thesis by simp
next
  case False
  with apart show ?thesis by simp
qed

text \<open>
  C6 does not hold for every baud rate: with a divided clock source and
  \<open>baud = 2\<^sup>2\<^sup>8\<close>, which is above 1000000, \<^verbatim>\<open>16 * baud\<close> is 0 in 32 bits, the divisor is
  a division by zero, and \<^verbatim>\<open>uart_init\<close> stops there: no line-control value is written at
  all, so none with the stop flag.
\<close>

theorem uart_init_stop_bits_counterexample:
  "(1000000::u32) < 0x10000000
   \<and> uart_init sample_defs idle_env 0 0x10000000 0 boot = Some (Inl Division_by_zero)
   \<and> uart_init_setup sample_defs idle_env 0x70006000 0 0x10000000 0 boot
       = Inl Division_by_zero"
proof -
  have s: "uart_init_setup sample_defs idle_env u 0 0x10000000 0 m1 = Inl Division_by_zero"
    for u m1
    by (simp add: uart_init_setup_def uart_init_div_def Let_def idle_env_simps)
  from uart_wait_xfer_quiet [OF idle_env_line, of 0 "UART_TX_IDLE sample_defs" boot]
  obtain m1 where w: "uart_wait_xfer sample_defs idle_env 0 (UART_TX_IDLE sample_defs) boot
       = Some m1" ..
  have "uart_init sample_defs idle_env 0 0x10000000 0 boot = Some (Inl Division_by_zero)"
    by (simp add: uart_init_def Let_def w s)
  with s show ?thesis by simp
qed

text \<open>
  C6, as the code has it: for every baud rate above 0 at which the divisor is defined
  (the clock source is not divided, or \<^verbatim>\<open>16 * baud\<close> is not 0 in 32 bits, as for every
  baud rate below \<open>2\<^sup>2\<^sup>8\<close>). The register sequence that follows the first wait of
  \<^verbatim>\<open>uart_init\<close> then runs to its end; it writes \<^verbatim>\<open>UART_LCR\<close> twice, first to open the
  divisor latch and then with the value it commits, which is also the value the register
  holds afterwards, and this value has the stop flag set exactly when the baud rate
  exceeds 1000000. A call that returns leaves that value in the register; on a line
  that reports the transmitter idle and no byte received the call does return; and a
  call whose first wait has ended is that register sequence followed by the last wait,
  whether or not the last wait ends. The theorem needs of the header only that the flag
  is not zero and lies outside the word-length bits.
\<close>

theorem uart_init_stop_bits:
  assumes flag: "UART_LCR_STOP d \<noteq> 0"
    and apart: "UART_LCR_WORD_LENGTH_8 d AND UART_LCR_STOP d = 0"
    and pos: "0 < baud"
    and defined: "clock_uart_use_src_div e idx baud \<longrightarrow> 16 * baud \<noteq> 0"
  shows "(\<exists>m2 (dv::u32) us lcr.
            uart_init_setup d e uart idx baud mode m1 = Inr m2
          \<and> trace m2 = trace m1 @
               [Write uart IER_DLAB 0,
                Write uart LCR (UART_LCR_DLAB d OR UART_LCR_WORD_LENGTH_8 d),
                Write uart THR_DLAB (ucast (ucast dv :: u8)),
                Write uart IER_DLAB (ucast (ucast (drop_bit 8 dv) :: u8)),
                Write uart LCR lcr,
                Write uart IIR_FCR (UART_IIR_FCR_EN_FIFO d),
                Usleep 20,
                Write uart MCR 0,
                Usleep 96,
                Write uart IIR_FCR (UART_IIR_FCR_EN_FIFO d OR UART_IIR_FCR_TX_CLR d
                                    OR UART_IIR_FCR_RX_CLR d),
                Write uart MCR mode,
                Usleep us]
          \<and> UART_LCR (uarts m2 uart) = lcr
          \<and> (lcr AND UART_LCR_STOP d \<noteq> 0) = (1000000 < baud))
       \<and> (\<forall>m'. uart_init d e idx baud mode m = Some (Inr m') \<longrightarrow>
            (UART_LCR (uarts m' (uart_ptr d e idx)) AND UART_LCR_STOP d \<noteq> 0) = (1000000 < baud))
       \<and> ((\<forall>k. lsr_in e k AND UART_LSR_TMTY d \<noteq> 0 \<and> lsr_in e k AND UART_LSR_RDR d = 0)
            \<longrightarrow> (\<exists>m'. uart_init d e idx baud mode m = Some (Inr m')))
       \<and> (\<forall>ma mb. (if mode AND (UART_MCR_CTS_EN d OR UART_MCR_DTR d) = 0
                    then uart_wait_xfer d e idx (UART_TX_IDLE d) m else Some m) = Some ma
                 \<and> uart_init_setup d e (uart_ptr d e idx) idx baud mode ma = Inr mb
            \<longrightarrow> uart_init d e idx baud mode m
                  = (case uart_wait_xfer d e idx (UART_TX_IDLE d OR UART_RX_RDYR d) mb of
                       None \<Rightarrow> None
                     | Some m3 \<Rightarrow> Some (Inr m3)))"
proof -
  from uart_init_div_defined [OF defined] obtain dv
    where dv: "uart_init_div (clock_uart_use_src_div e idx baud) baud = Inr dv" ..
  have nz: "baud \<noteq> 0" using pos by auto
  define us where "us = 3 * ((baud + 999999) div baud)"
  have us: "uart_init_settle baud = Inr us"
    using nz by (simp add: uart_init_settle_def us_def)
  note iff = stop_flag_iff [OF flag apart, of baud]
  from uart_init_setup_result [OF dv us, of d uart mode m1]
  obtain m2 where m2: "uart_init_setup d e uart idx baud mode m1 = Inr m2"
    and tr: "trace m2 = trace m1 @
               [Write uart IER_DLAB 0,
                Write uart LCR (UART_LCR_DLAB d OR UART_LCR_WORD_LENGTH_8 d),
                Write uart THR_DLAB (ucast (ucast dv :: u8)),
                Write uart IER_DLAB (ucast (ucast (drop_bit 8 dv) :: u8)),
                Write uart LCR ((if 1000000 < baud then UART_LCR_STOP d else 0)
                                OR UART_LCR_WORD_LENGTH_8 d),
                Write uart IIR_FCR (UART_IIR_FCR_EN_FIFO d),
                Usleep 20,
                Write uart MCR 0,
                Usleep 96,
                Write uart IIR_FCR (UART_IIR_FCR_EN_FIFO d OR UART_IIR_FCR_TX_CLR d
                                    OR UART_IIR_FCR_RX_CLR d),
                Write uart MCR mode,
                Usleep us]"
    and lc: "UART_LCR (uarts m2 uart)
               = (if 1000000 < baud then UART_LCR_STOP d else 0) OR UART_LCR_WORD_LENGTH_8 d"
    by blast
  have a: "\<exists>m2 (dv::u32) us lcr.
            uart_init_setup d e uart idx baud mode m1 = Inr m2
          \<and> trace m2 = trace m1 @
               [Write uart IER_DLAB 0,
                Write uart LCR (UART_LCR_DLAB d OR UART_LCR_WORD_LENGTH_8 d),
                Write uart THR_DLAB (ucast (ucast dv :: u8)),
                Write uart IER_DLAB (ucast (ucast (drop_bit 8 dv) :: u8)),
                Write uart LCR lcr,
                Write uart IIR_FCR (UART_IIR_FCR_EN_FIFO d),
                Usleep 20,
                Write uart MCR 0,
                Usleep 96,
                Write uart IIR_FCR (UART_IIR_FCR_EN_FIFO d OR UART_IIR_FCR_TX_CLR d
                                    OR UART_IIR_FCR_RX_CLR d),
                Write uart MCR mode,
                Usleep us]
          \<and> UART_LCR (uarts m2 uart) = lcr
          \<and> (lcr AND UART_LCR_STOP d \<noteq> 0) = (1000000 < baud)"
    by (intro exI [of _ m2] exI [of _ dv] exI [of _ us]
        exI [of _ "(if 1000000 < baud then UART_LCR_STOP d else 0) OR UART_LCR_WORD_LENGTH_8 d"]
        conjI m2 tr lc iff)
  have b: "(UART_LCR (uarts m' (uart_ptr d e idx)) AND UART_LCR_STOP d \<noteq> 0) = (1000000 < baud)"
    if r: "uart_init d e idx baud mode m = Some (Inr m')" for m'
  proof -
    from uart_init_returns [OF r] obtain ma mb
      where s: "uart_init_setup d e (uart_ptr d e idx) idx baud mode ma = Inr mb"
        and f: "uarts m' = uarts mb"
      by blast
    from uart_init_setup_result [OF dv us, of d "uart_ptr d e idx" mode ma] s
    have "UART_LCR (uarts mb (uart_ptr d e idx))
          = (if 1000000 < baud then UART_LCR_STOP d else 0) OR UART_LCR_WORD_LENGTH_8 d"
      by auto
    with f iff show ?thesis by simp
  qed
  have c: "\<exists>m'. uart_init d e idx baud mode m = Some (Inr m')"
    if q: "\<forall>k. lsr_in e k AND UART_LSR_TMTY d \<noteq> 0 \<and> lsr_in e k AND UART_LSR_RDR d = 0"
    using uart_init_quiet [OF q dv us] .
  show ?thesis using a b c uart_init_after_wait [of mode d e idx m _ baud] by blast
qed

theorem uart_init_stop_bits_witness:
  "UART_LCR_STOP sample_defs \<noteq> 0
   \<and> UART_LCR_WORD_LENGTH_8 sample_defs AND UART_LCR_STOP sample_defs = 0
   \<and> (\<exists>m'. uart_init sample_defs idle_env 0 1000000 0 boot = Some (Inr m')
      \<and> UART_LCR (uarts m' 0x70006000) AND UART_LCR_STOP sample_defs = 0)
   \<and> (\<exists>m'. uart_init sample_defs idle_env 0 1000001 0 boot = Some (Inr m')
      \<and> UART_LCR (uarts m' 0x70006000) AND UART_LCR_STOP sample_defs \<noteq> 0)
   \<and> (\<exists>m2. uart_init_setup sample_defs idle_env 0x70006000 0 1000001 0 boot = Inr m2
      \<and> UART_LCR (uarts m2 0x70006000) = 7
      \<and> trace m2 ! 1 = Write 0x70006000 LCR 0x83
      \<and> trace m2 ! 4 = Write 0x70006000 LCR 7)"
proof -
  have flag: "UART_LCR_STOP sample_defs \<noteq> 0"
    and apart: "UART_LCR_WORD_LENGTH_8 sample_defs AND UART_LCR_STOP sample_defs = 0"
    by (simp_all add: sample_defs_simps)
  have p1: "(0::u32) < 1000000" and p2: "(0::u32) < 1000001" by simp_all
  have d1: "clock_uart_use_src_div idle_env 0 1000000 \<longrightarrow> 16 * (1000000::u32) \<noteq> 0"
    and d2: "clock_uart_use_src_div idle_env 0 1000001 \<longrightarrow> 16 * (1000001::u32) \<noteq> 0"
    by simp_all
  from uart_init_stop_bits [OF flag apart p1 d1, of "0x70006000" 0 boot boot]
    idle_env_line
  have "\<exists>m'. uart_init sample_defs idle_env 0 1000000 0 boot = Some (Inr m')
      \<and> UART_LCR (uarts m' 0x70006000) AND UART_LCR_STOP sample_defs = 0"
    by (auto simp: sample_ptr_0)
  moreover
  from uart_init_stop_bits [OF flag apart p2 d2, of "0x70006000" 0 boot boot]
    idle_env_line
  have "\<exists>m'. uart_init sample_defs idle_env 0 1000001 0 boot = Some (Inr m')
      \<and> UART_LCR (uarts m' 0x70006000) AND UART_LCR_STOP sample_defs \<noteq> 0"
    by (auto simp: sample_ptr_0)
  moreover
  from uart_init_stop_bits [OF flag apart p2 d2, of "0x70006000" 0 boot boot]
  obtain m2 and dv :: u32 and us lcr
    where s: "uart_init_setup sample_defs idle_env 0x70006000 0 1000001 0 boot = Inr m2"
      and t: "trace m2 = trace boot @
               [Write 0x70006000 IER_DLAB 0,
                Write 0x70006000 LCR (UART_LCR_DLAB sample_defs
                                      OR UART_LCR_WORD_LENGTH_8 sample_defs),
                Write 0x70006000 THR_DLAB (ucast (ucast dv :: u8)),
                Write 0x70006000 IER_DLAB (ucast (ucast (drop_bit 8 dv) :: u8)),
                Write 0x70006000 LCR lcr,
                Write 0x70006000 IIR_FCR (UART_IIR_FCR_EN_FIFO sample_defs),
                Usleep 20,
                Write 0x70006000 MCR 0,
                Usleep 96,
                Write 0x70006000 IIR_FCR (UART_IIR_FCR_EN_FIFO sample_defs
                   OR UART_IIR_FCR_TX_CLR sample_defs OR UART_IIR_FCR_RX_CLR sample_defs),
                Write 0x70006000 MCR 0,
                Usleep us]"
      and l: "UART_LCR (uarts m2 0x70006000) = lcr"
    by blast
  from s have "UART_LCR (uarts m2 0x70006000) = 7"
    by (auto simp: uart_init_setup_def uart_init_div_def uart_init_settle_def Let_def
        idle_env_simps sample_defs_simps uarts_wr usleep_simps)
  with l have v: "lcr = 7" by simp
  have "\<exists>m2. uart_init_setup sample_defs idle_env 0x70006000 0 1000001 0 boot = Inr m2
      \<and> UART_LCR (uarts m2 0x70006000) = 7
      \<and> trace m2 ! 1 = Write 0x70006000 LCR 0x83
      \<and> trace m2 ! 4 = Write 0x70006000 LCR 7"
    using s t l v by (simp add: boot_simps sample_defs_simps)
  ultimately show ?thesis using flag apart by blast
qed

section \<open>Receiving\<close>

lemma recv_wait_ready:
  assumes "lsr_in e (lsr_reads m) AND UART_LSR_RDR d \<noteq> 0"
  shows "recv_wait d e u t m = Some (False, snd (rd_LSR e u m))"
  using assms by (subst recv_wait.simps) (simp add: split_beta rd_LSR_simps)

lemma recv_wait_fires:
  assumes "lsr_in e (lsr_reads m) AND UART_LSR_RDR d = 0" and "t < tmr_in e (tmr_reads m)"
  shows "recv_wait d e u t m = Some (True, snd (get_tmr_us e (snd (rd_LSR e u m))))"
  using assms
  by (subst recv_wait.simps) (simp add: split_beta rd_LSR_simps get_tmr_us_simps)

lemma recv_wait_again:
  assumes "lsr_in e (lsr_reads m) AND UART_LSR_RDR d = 0" and "\<not> t < tmr_in e (tmr_reads m)"
  shows "recv_wait d e u t m = recv_wait d e u t (snd (get_tmr_us e (snd (rd_LSR e u m))))"
  using assms
  by (subst recv_wait.simps) (simp add: split_beta rd_LSR_simps get_tmr_us_simps)

lemma recv_wait_times_out:
  assumes never: "\<forall>k. lsr_in e k AND UART_LSR_RDR d = 0"
    and fire: "t < tmr_in e (tmr_reads m + n)"
    and before: "\<forall>j<n. \<not> t < tmr_in e (tmr_reads m + j)"
  shows "\<exists>m'. recv_wait d e u t m = Some (True, m')
           \<and> lsr_reads m' = lsr_reads m + Suc n \<and> tmr_reads m' = tmr_reads m + Suc n"
  using fire before
proof (induction n arbitrary: m)
  case 0
  then show ?case using never
    by (simp add: recv_wait_fires rd_LSR_simps get_tmr_us_simps)
next
  case (Suc n)
  let ?m = "snd (get_tmr_us e (snd (rd_LSR e u m)))"
  have tm: "tmr_reads ?m = Suc (tmr_reads m)" and lm: "lsr_reads ?m = Suc (lsr_reads m)"
    by (simp_all add: rd_LSR_simps get_tmr_us_simps)
  from Suc.prems(2) have no: "\<not> t < tmr_in e (tmr_reads m)" by force
  have f: "t < tmr_in e (tmr_reads ?m + n)" using Suc.prems(1) by (simp add: tm)
  have b: "\<forall>j<n. \<not> t < tmr_in e (tmr_reads ?m + j)"
  proof (intro allI impI)
    fix j assume "j < n"
    then have "Suc j < Suc n" by simp
    with Suc.prems(2) have "\<not> t < tmr_in e (tmr_reads m + Suc j)" by blast
    then show "\<not> t < tmr_in e (tmr_reads ?m + j)" by (simp add: tm)
  qed
  have "recv_wait d e u t m = recv_wait d e u t ?m"
    using never no by (simp add: recv_wait_again)
  moreover from Suc.IH [OF f b]
  obtain m' where "recv_wait d e u t ?m = Some (True, m')"
    and "lsr_reads m' = lsr_reads ?m + Suc n" and "tmr_reads m' = tmr_reads ?m + Suc n"
    by blast
  ultimately show ?case by (simp add: tm lm)
qed

lemma recv_wait_hangs:
  assumes never: "\<forall>k. lsr_in e k AND UART_LSR_RDR d = 0"
  shows "recv_wait d e u (- 1) m = None"
proof (rule ccontr)
  assume "recv_wait d e u (- 1) m \<noteq> None"
  then obtain r where "recv_wait d e u (- 1) m = Some r" by auto
  then have "(\<forall>k. lsr_in e k AND UART_LSR_RDR d = 0) \<longrightarrow> - 1 \<noteq> (- 1 :: u32)"
  proof (induction d e u "- 1 :: u32" m r
      rule: recv_wait.raw_induct [rotated 1, consumes 1, case_names step])
    case (step f d e u m r)
    show ?case
    proof
      assume nv: "\<forall>k. lsr_in e k AND UART_LSR_RDR d = 0"
      have "\<not> (- 1 :: u32) < tmr_in e (tmr_reads m)" by (simp add: not_less)
      with nv step(2)
      have "f d e u (- 1) (snd (get_tmr_us e (snd (rd_LSR e u m)))) = Some r"
        by (simp add: split_beta rd_LSR_simps get_tmr_us_simps)
      from step(1) [OF this] nv show "- 1 \<noteq> (- 1 :: u32)" by simp
    qed
  qed
  with never show False by simp
qed

text \<open>A wait writes no register: it only reads the line status and the counter.\<close>

lemma recv_wait_frame:
  assumes "recv_wait d e u t m = Some r"
  shows "uarts (snd r) = uarts m \<and> rbr_reads (snd r) = rbr_reads m \<and> slept (snd r) = slept m
         \<and> (\<exists>evs. trace (snd r) = trace m @ evs \<and> (\<forall>ev\<in>set evs. \<not> is_write ev))"
  using assms
proof (induction d e u t m r
    rule: recv_wait.raw_induct [rotated 1, consumes 1, case_names step])
  case (step f d e u t m r)
  let ?m1 = "snd (rd_LSR e u m)"
  let ?m2 = "snd (get_tmr_us e ?m1)"
  have t1: "trace ?m1 = trace m @ [Read u LSR (lsr_in e (lsr_reads m))]"
    by (simp add: rd_LSR_simps)
  have t2: "trace ?m2 = trace m @ [Read u LSR (lsr_in e (lsr_reads m)),
                                    Get_tmr (tmr_in e (tmr_reads m))]"
    by (simp add: rd_LSR_simps get_tmr_us_simps)
  have f2: "uarts ?m2 = uarts m \<and> rbr_reads ?m2 = rbr_reads m \<and> slept ?m2 = slept m"
    by (simp add: rd_LSR_simps get_tmr_us_simps)
  show ?case
  proof (cases "lsr_in e (lsr_reads m) AND UART_LSR_RDR d = 0")
    case False
    with step(2) have "r = (False, ?m1)" by (auto simp: split_beta rd_LSR_simps)
    then show ?thesis using t1 by (simp add: rd_LSR_simps)
  next
    case quiet: True
    show ?thesis
    proof (cases "t < tmr_in e (tmr_reads m)")
      case True
      with quiet step(2) have "r = (True, ?m2)"
        by (auto simp: split_beta rd_LSR_simps get_tmr_us_simps)
      then show ?thesis using t2 f2 by simp
    next
      case False
      with quiet step(2) have "f d e u t ?m2 = Some r"
        by (simp add: split_beta rd_LSR_simps get_tmr_us_simps)
      from step(1) [OF this] obtain evs
        where a: "uarts (snd r) = uarts ?m2" "rbr_reads (snd r) = rbr_reads ?m2"
          "slept (snd r) = slept ?m2"
          and b: "trace (snd r) = trace ?m2 @ evs" and c: "\<forall>ev\<in>set evs. \<not> is_write ev"
        by blast
      from b t2 have "trace (snd r) = trace m @ ([Read u LSR (lsr_in e (lsr_reads m)),
                                    Get_tmr (tmr_in e (tmr_reads m))] @ evs)"
        by simp
      moreover from c have "\<forall>ev\<in>set ([Read u LSR (lsr_in e (lsr_reads m)),
                                    Get_tmr (tmr_in e (tmr_reads m))] @ evs). \<not> is_write ev"
        by simp
      ultimately show ?thesis using a f2 by metis
    qed
  qed
qed

text \<open>One turn of the \<^verbatim>\<open>for\<close> loop, when the wait ends with a byte.\<close>

lemma recv_loop_byte:
  assumes "\<not> (len \<noteq> 0 \<and> len \<le> i)" and "recv_wait d e u t m = Some (False, m1)"
  shows "recv_loop d e u len t i buf m
         = recv_loop d e u len (tmr_in e (tmr_reads m1) + 250) (i + 1)
             (buf(i := ucast (rbr_in e (rbr_reads m1))))
             (snd (get_tmr_us e (snd (rd_RBR e u m1))))"
  using assms
  by (subst recv_loop.simps) (auto simp: split_beta rd_RBR_simps get_tmr_us_simps)

lemma recv_loop_out:
  assumes "\<not> (len \<noteq> 0 \<and> len \<le> i)" and "recv_wait d e u t m = Some (True, m1)"
  shows "recv_loop d e u len t i buf m = Some (i, buf, m1)"
  using assms by (subst recv_loop.simps) auto

lemma recv_loop_full:
  assumes "len \<noteq> 0" and "len \<le> i"
  shows "recv_loop d e u len t i buf m = Some (i, buf, m)"
  using assms by (subst recv_loop.simps) simp

lemma recv_loop_stuck:
  assumes "\<not> (len \<noteq> 0 \<and> len \<le> i)" and "recv_wait d e u t m = None"
  shows "recv_loop d e u len t i buf m = None"
  using assms by (subst recv_loop.simps) auto

text \<open>The loop writes no register either: it adds the reads of the receive register.\<close>

lemma recv_loop_frame:
  assumes "recv_loop d e u len t i buf m = Some r"
  shows "uarts (snd (snd r)) = uarts m \<and> slept (snd (snd r)) = slept m
         \<and> (\<exists>evs. trace (snd (snd r)) = trace m @ evs \<and> (\<forall>ev\<in>set evs. \<not> is_write ev))"
  using assms
proof (induction d e u len t i buf m r
    rule: recv_loop.raw_induct [rotated 1, consumes 1, case_names step])
  case (step f d e u len t i buf m r)
  show ?case
  proof (cases "len \<noteq> 0 \<and> len \<le> i")
    case True
    with step(2) show ?thesis by auto
  next
    case False
    then have g: "(len \<noteq> 0 \<and> len \<le> i) = False" by simp
    note body = step(2) [unfolded g if_False]
    from body obtain out m1 where w: "recv_wait d e u t m = Some (out, m1)"
      by (auto split: option.splits)
    from recv_wait_frame [OF w] obtain evs0
      where fr: "uarts m1 = uarts m" "slept m1 = slept m"
        and tr: "trace m1 = trace m @ evs0" and nw: "\<forall>ev\<in>set evs0. \<not> is_write ev"
      by auto
    show ?thesis
    proof (cases out)
      case True
      with w body have "snd (snd r) = m1" by auto
      with fr tr nw show ?thesis by auto
    next
      case out: False
      let ?m3 = "snd (get_tmr_us e (snd (rd_RBR e u m1)))"
      from out w body
      have "f d e u len (tmr_in e (tmr_reads m1) + 250) (i + 1)
              (buf(i := ucast (rbr_in e (rbr_reads m1)))) ?m3 = Some r"
        by (simp add: split_beta rd_RBR_simps get_tmr_us_simps)
      from step(1) [OF this] obtain evs
        where a: "uarts (snd (snd r)) = uarts ?m3" "slept (snd (snd r)) = slept ?m3"
          and b: "trace (snd (snd r)) = trace ?m3 @ evs" and c: "\<forall>ev\<in>set evs. \<not> is_write ev"
        by blast
      have t3: "trace ?m3 = trace m1 @ [Read u THR_DLAB (rbr_in e (rbr_reads m1)),
                                         Get_tmr (tmr_in e (tmr_reads m1))]"
        by (simp add: rd_RBR_simps get_tmr_us_simps)
      have f3: "uarts ?m3 = uarts m1" "slept ?m3 = slept m1"
        by (simp_all add: rd_RBR_simps get_tmr_us_simps)
      let ?all = "evs0 @ [Read u THR_DLAB (rbr_in e (rbr_reads m1)),
                          Get_tmr (tmr_in e (tmr_reads m1))] @ evs"
      have "trace (snd (snd r)) = trace m @ ?all" using b t3 tr by simp
      moreover have "\<forall>ev\<in>set ?all. \<not> is_write ev" using nw c by auto
      ultimately show ?thesis using a f3 fr by metis
    qed
  qed
qed

lemma recv_loop_count:
  assumes "recv_loop d e u len t i buf m = Some r"
  shows "len \<noteq> 0 \<longrightarrow> i \<le> len \<longrightarrow> fst r \<le> len"
  using assms
proof (induction d e u len t i buf m r
    rule: recv_loop.raw_induct [rotated 1, consumes 1, case_names step])
  case (step f d e u len t i buf m r)
  show ?case
  proof (intro impI)
    assume len: "len \<noteq> 0" and le: "i \<le> len"
    show "fst r \<le> len"
    proof (cases "len \<le> i")
      case True
      with len step(2) le show ?thesis by auto
    next
      case False
      then have g: "(len \<noteq> 0 \<and> len \<le> i) = False" by simp
      note body = step(2) [unfolded g if_False]
      from body obtain out m1 where w: "recv_wait d e u t m = Some (out, m1)"
        by (auto split: option.splits)
      show ?thesis
      proof (cases out)
        case True
        with w body le show ?thesis by auto
      next
        case out: False
        with w body
        have "f d e u len (tmr_in e (tmr_reads m1) + 250) (i + 1)
              (buf(i := ucast (rbr_in e (rbr_reads m1))))
              (snd (get_tmr_us e (snd (rd_RBR e u m1)))) = Some r"
          by (simp add: split_beta rd_RBR_simps get_tmr_us_simps)
        from step(1) [OF this] have "len \<noteq> 0 \<longrightarrow> i + 1 \<le> len \<longrightarrow> fst r \<le> len" .
        moreover have "i + 1 \<le> len" using False by (simp add: inc_le)
        ultimately show ?thesis using len by simp
      qed
    qed
  qed
qed

text \<open>With no length limit, the loop is left only through the time-out of a wait.\<close>

lemma recv_loop_unbounded_exit:
  assumes "recv_loop d e u len t i buf m = Some r"
  shows "len = 0 \<longrightarrow> (\<exists>t' m0. recv_wait d e u t' m0 = Some (True, snd (snd r)))"
  using assms
proof (induction d e u len t i buf m r
    rule: recv_loop.raw_induct [rotated 1, consumes 1, case_names step])
  case (step f d e u len t i buf m r)
  show ?case
  proof
    assume z: "len = 0"
    then have g: "(len \<noteq> 0 \<and> len \<le> i) = False" by simp
    note body = step(2) [unfolded g if_False]
    from body obtain out m1 where w: "recv_wait d e u t m = Some (out, m1)"
      by (auto split: option.splits)
    show "\<exists>t' m0. recv_wait d e u t' m0 = Some (True, snd (snd r))"
    proof (cases out)
      case True
      with w body have "snd (snd r) = m1" by auto
      with w True have "recv_wait d e u t m = Some (True, snd (snd r))" by simp
      then show ?thesis by blast
    next
      case out: False
      with w body
      have "f d e u len (tmr_in e (tmr_reads m1) + 250) (i + 1)
              (buf(i := ucast (rbr_in e (rbr_reads m1))))
              (snd (get_tmr_us e (snd (rd_RBR e u m1)))) = Some r"
        by (simp add: split_beta rd_RBR_simps get_tmr_us_simps)
      from step(1) [OF this] z show ?thesis by simp
    qed
  qed
qed

text \<open>The loop on a line that always has a byte ready.\<close>

lemma recv_loop_fills:
  assumes ready: "\<forall>k. lsr_in e k AND UART_LSR_RDR d \<noteq> 0"
    and len: "len \<noteq> 0"
    and n: "unat len - unat i = n" and le: "i \<le> len"
  shows "\<exists>buf' m'. recv_loop d e u len t i buf m = Some (len, buf', m')
           \<and> (\<forall>j. i \<le> j \<and> j < len \<longrightarrow> buf' j = ucast (rbr_in e (rbr_reads m + (unat j - unat i))))
           \<and> (\<forall>j. j < i \<longrightarrow> buf' j = buf j)
           \<and> rbr_reads m' = rbr_reads m + n"
  using n le
proof (induction n arbitrary: i t buf m)
  case 0
  then have "len \<le> i" by (simp add: word_le_nat_alt)
  with 0 have "i = len" by simp
  then show ?case using len by (auto simp: recv_loop_full)
next
  case (Suc n)
  then have lt: "i < len" by (simp add: word_less_nat_alt)
  then have g: "\<not> (len \<noteq> 0 \<and> len \<le> i)" using leD by blast
  let ?m1 = "snd (rd_LSR e u m)"
  let ?b = "buf(i := ucast (rbr_in e (rbr_reads m)))"
  let ?m3 = "snd (get_tmr_us e (snd (rd_RBR e u ?m1)))"
  have r3: "rbr_reads ?m3 = Suc (rbr_reads m)"
    by (simp add: rd_LSR_simps rd_RBR_simps get_tmr_us_simps)
  have w: "recv_wait d e u t m = Some (False, ?m1)"
    using ready by (simp add: recv_wait_ready)
  have step: "recv_loop d e u len t i buf m
              = recv_loop d e u len (tmr_in e (tmr_reads ?m1) + 250) (i + 1) ?b ?m3"
    using recv_loop_byte [OF g w, of buf] by (simp add: rd_LSR_simps)
  have "unat i < unat len" using lt by (simp add: word_less_nat_alt)
  moreover have "unat len < 2 ^ 32" using unsigned_less [of len] by simp
  ultimately have i1: "unat (i + 1) = Suc (unat i)"
    by (simp add: unat_word_ariths)
  have n': "unat len - unat (i + 1) = n" using Suc.prems(1) i1 by simp
  have le': "i + 1 \<le> len" using lt by (simp add: inc_le)
  from Suc.IH [OF n' le', of "tmr_in e (tmr_reads ?m1) + 250" ?b ?m3]
  obtain buf' m' where r: "recv_loop d e u len (tmr_in e (tmr_reads ?m1) + 250) (i + 1) ?b ?m3
                           = Some (len, buf', m')"
    and new: "\<forall>j. i + 1 \<le> j \<and> j < len
                \<longrightarrow> buf' j = ucast (rbr_in e (rbr_reads ?m3 + (unat j - unat (i + 1))))"
    and old: "\<forall>j. j < i + 1 \<longrightarrow> buf' j = ?b j"
    and cnt: "rbr_reads m' = rbr_reads ?m3 + n"
    by blast
  have "\<forall>j. i \<le> j \<and> j < len \<longrightarrow> buf' j = ucast (rbr_in e (rbr_reads m + (unat j - unat i)))"
  proof (intro allI impI)
    fix j assume j: "i \<le> j \<and> j < len"
    show "buf' j = ucast (rbr_in e (rbr_reads m + (unat j - unat i)))"
    proof (cases "j = i")
      case True
      have "i < i + 1" by (simp add: word_less_nat_alt i1)
      with old True show ?thesis by simp
    next
      case False
      with j have "i < j" by auto
      then have a: "i + 1 \<le> j" by (simp add: inc_le)
      then have "unat (i + 1) \<le> unat j" by (simp add: word_le_nat_alt)
      then have eq: "rbr_reads ?m3 + (unat j - unat (i + 1)) = rbr_reads m + (unat j - unat i)"
        using i1 r3 by simp
      from new a j
      have "buf' j = ucast (rbr_in e (rbr_reads ?m3 + (unat j - unat (i + 1))))" by blast
      then show ?thesis by (simp only: eq)
    qed
  qed
  moreover have "\<forall>j. j < i \<longrightarrow> buf' j = buf j"
  proof (intro allI impI)
    fix j assume j: "j < i"
    then have "j < i + 1" by (simp add: word_less_nat_alt i1)
    with old j show "buf' j = buf j" by auto
  qed
  moreover have "rbr_reads m' = rbr_reads m + Suc n" using cnt r3 by simp
  ultimately show ?case using step r by simp
qed

lemma uart_recv_unfold:
  assumes "uart = uart_ptr d e idx"
  shows "uart_recv d e idx buf len m =
     (case recv_loop d e uart len (tmr_in e (tmr_reads m) + 250) 0 buf
             (if UART_MCR (uarts m uart) AND UART_MCR_RTS d \<noteq> 0
              then wr_MCR uart (UART_MCR (uarts m uart) AND NOT (UART_MCR_RTS d))
                     (snd (get_tmr_us e m))
              else snd (get_tmr_us e m)) of
        None \<Rightarrow> None
      | Some (i, buf', m3) \<Rightarrow>
          Some (i, buf',
            if UART_MCR (uarts m uart) AND UART_MCR_RTS d \<noteq> 0
            then wr_MCR uart (UART_MCR (uarts m3 uart) OR UART_MCR_RTS d) m3
            else m3))"
  unfolding assms by (simp add: uart_recv_def Let_def split_beta get_tmr_us_simps)

lemma zero_not_full: "\<not> (len \<noteq> 0 \<and> len \<le> (0::u32))"
  by simp

subsection \<open>A line that always has a byte ready\<close>

lemma uart_recv_ready:
  assumes len: "len \<noteq> 0"
    and ready: "\<forall>k. lsr_in e k AND UART_LSR_RDR d \<noteq> 0"
  shows "\<exists>buf' m'. uart_recv d e idx buf len m = Some (len, buf', m')
           \<and> (\<forall>j<len. buf' j = ucast (rbr_in e (rbr_reads m + unat j)))
           \<and> rbr_reads m' = rbr_reads m + unat len"
proof -
  define uart where "uart = uart_ptr d e idx"
  let ?limit = "tmr_in e (tmr_reads m) + 250"
  let ?m2 = "if UART_MCR (uarts m uart) AND UART_MCR_RTS d \<noteq> 0
              then wr_MCR uart (UART_MCR (uarts m uart) AND NOT (UART_MCR_RTS d))
                     (snd (get_tmr_us e m))
              else snd (get_tmr_us e m)"
  have rb: "rbr_reads ?m2 = rbr_reads m" by (simp add: counters_wr get_tmr_us_simps)
  from recv_loop_fills [OF ready len, of 0 "unat len" uart ?limit buf ?m2]
  obtain buf' m3 where r: "recv_loop d e uart len ?limit 0 buf ?m2 = Some (len, buf', m3)"
    and new: "\<forall>j. 0 \<le> j \<and> j < len
                \<longrightarrow> buf' j = ucast (rbr_in e (rbr_reads ?m2 + (unat j - unat (0::u32))))"
    and cnt: "rbr_reads m3 = rbr_reads ?m2 + unat len"
    by auto
  let ?m' = "if UART_MCR (uarts m uart) AND UART_MCR_RTS d \<noteq> 0
            then wr_MCR uart (UART_MCR (uarts m3 uart) OR UART_MCR_RTS d) m3
            else m3"
  have "uart_recv d e idx buf len m = Some (len, buf', ?m')"
    by (simp only: uart_recv_unfold [OF uart_def] r option.case prod.case)
  moreover have "\<forall>j<len. buf' j = ucast (rbr_in e (rbr_reads m + unat j))"
    using new rb by simp
  moreover have "rbr_reads ?m' = rbr_reads m + unat len"
    using cnt rb by (simp add: counters_wr)
  ultimately show ?thesis by blast
qed

lemma uart_recv_bounded:
  assumes len: "len \<noteq> 0"
    and ret: "uart_recv d e idx buf len m = Some (n, buf', m')"
  shows "n \<le> len"
proof -
  from ret obtain t m2 m3
    where "recv_loop d e (uart_ptr d e idx) len t 0 buf m2 = Some (n, buf', m3)"
    unfolding uart_recv_unfold [OF refl] by (auto split: option.splits)
  from recv_loop_count [OF this] len show ?thesis by simp
qed

text \<open>
  C2. A call with a length other than zero: when the data-ready bit is set at every read
  of the line status register, the call returns the length, and byte \<open>j\<close> of the buffer
  is the \<open>j\<close>-th value the receive register delivered during the call, for every \<open>j\<close>
  below the length. Whatever the line does, a call that returns returns at most the
  length.
\<close>

theorem uart_recv_fills:
  assumes len: "len \<noteq> 0"
  shows "((\<forall>k. lsr_in e k AND UART_LSR_RDR d \<noteq> 0) \<longrightarrow>
            (\<exists>buf' m'. uart_recv d e idx buf len m = Some (len, buf', m')
               \<and> (\<forall>j<len. buf' j = ucast (rbr_in e (rbr_reads m + unat j)))
               \<and> rbr_reads m' = rbr_reads m + unat len))
       \<and> (\<forall>e' n buf' m'. uart_recv d e' idx buf len m = Some (n, buf', m') \<longrightarrow> n \<le> len)"
  using uart_recv_ready [OF len] uart_recv_bounded [OF len] by blast

theorem uart_recv_fills_witness:
  "(4::u32) \<noteq> 0 \<and>
   (\<forall>k. lsr_in data_env k AND UART_LSR_RDR sample_defs \<noteq> 0) \<and>
   (\<exists>buf' m'. uart_recv sample_defs data_env 0 zero_buf 4 boot = Some (4, buf', m')
      \<and> buf' 0 = 0x41 \<and> buf' 1 = 0x42 \<and> buf' 2 = 0x43 \<and> buf' 3 = 0x44
      \<and> rbr_reads m' = 4)"
proof -
  have len: "(4::u32) \<noteq> 0" by simp
  have ready: "\<forall>k. lsr_in data_env k AND UART_LSR_RDR sample_defs \<noteq> 0"
    by (simp add: data_env_def sample_defs_simps)
  from uart_recv_fills [OF len, of data_env sample_defs 0 zero_buf boot] ready
  obtain buf' m'
    where r: "uart_recv sample_defs data_env 0 zero_buf 4 boot = Some (4, buf', m')"
    and b: "\<forall>j<4. buf' j = ucast (rbr_in data_env (rbr_reads boot + unat j))"
    and c: "rbr_reads m' = rbr_reads boot + unat (4::u32)"
    by blast
  have "buf' 0 = 0x41" "buf' 1 = 0x42" "buf' 2 = 0x43" "buf' 3 = 0x44"
    using b by (simp_all add: data_env_def boot_simps)
  moreover have "rbr_reads m' = 4" using c by (simp add: boot_simps)
  ultimately show ?thesis using len ready r by blast
qed

subsection \<open>A line that stays quiet\<close>

text \<open>
  The counter is read once on entry and then once per turn of the wait. When the values
  read grow strictly over the first 252 reads of the call, as unsigned 32-bit numbers,
  the call returns 0 at the first read that shows more than 250 microseconds since
  entry, after at most 251 turns, and leaves the buffer as it was.
\<close>

lemma uart_recv_quiet:
  assumes never: "\<forall>k. lsr_in e k AND UART_LSR_RDR d = 0"
    and incr: "\<forall>k<251. tmr_in e (tmr_reads m + k) < tmr_in e (tmr_reads m + Suc k)"
  shows "\<exists>m' n. uart_recv d e idx buf len m = Some (0, buf, m')
            \<and> n \<le> 250 \<and> tmr_reads m' = tmr_reads m + n + 2
            \<and> unat (tmr_in e (tmr_reads m)) + 250 < unat (tmr_in e (tmr_reads m + Suc n))
            \<and> (\<forall>j<n. unat (tmr_in e (tmr_reads m + Suc j))
                        \<le> unat (tmr_in e (tmr_reads m)) + 250)"
proof -
  define uart where "uart = uart_ptr d e idx"
  let ?r = "tmr_reads m"
  let ?start = "tmr_in e ?r"
  let ?limit = "?start + 250"
  let ?m2 = "if UART_MCR (uarts m uart) AND UART_MCR_RTS d \<noteq> 0
              then wr_MCR uart (UART_MCR (uarts m uart) AND NOT (UART_MCR_RTS d))
                     (snd (get_tmr_us e m))
              else snd (get_tmr_us e m)"
  have grow: "k \<le> 251 \<Longrightarrow> unat ?start + k \<le> unat (tmr_in e (?r + k))" for k
  proof (induction k)
    case 0
    show ?case by simp
  next
    case (Suc k)
    then have "k < 251" by simp
    with incr have "tmr_in e (?r + k) < tmr_in e (?r + Suc k)" by blast
    then have "unat (tmr_in e (?r + k)) < unat (tmr_in e (?r + Suc k))"
      by (simp add: word_less_nat_alt)
    moreover have "unat ?start + k \<le> unat (tmr_in e (?r + k))" using Suc by simp
    ultimately show ?case by simp
  qed
  have top: "unat ?start + 251 \<le> unat (tmr_in e (?r + 251))" using grow [of 251] by simp
  have "unat (tmr_in e (?r + 251)) < 2 ^ 32"
    using unsigned_less [of "tmr_in e (?r + 251)"] by simp
  with top have room: "unat ?start + 250 < 2 ^ 32" by simp
  have "unat ?limit = (unat ?start + unat (250::u32)) mod 2 ^ LENGTH(32)"
    by (rule unat_word_ariths(1))
  also have "\<dots> = unat ?start + 250" using room by simp
  finally have nowrap: "unat ?limit = unat ?start + 250" .
  have "unat ?limit < unat (tmr_in e (?r + 251))" using top nowrap by linarith
  then have "?limit < tmr_in e (?r + 251)" by (simp only: word_less_nat_alt)
  moreover have "Suc ?r + 250 = ?r + 251" by simp
  ultimately have fire250: "?limit < tmr_in e (Suc ?r + 250)" by (simp only:)
  define n where "n = (LEAST n. ?limit < tmr_in e (Suc ?r + n))"
  have fire: "?limit < tmr_in e (Suc ?r + n)"
    unfolding n_def using fire250 by (rule LeastI)
  have n250: "n \<le> 250"
    unfolding n_def using fire250 by (rule Least_le)
  have before: "\<forall>j<n. \<not> ?limit < tmr_in e (Suc ?r + j)"
    unfolding n_def using not_less_Least by blast
  have tm2: "tmr_reads ?m2 = Suc ?r" by (simp add: counters_wr get_tmr_us_simps)
  have "\<exists>m3. recv_wait d e uart ?limit ?m2 = Some (True, m3)
           \<and> lsr_reads m3 = lsr_reads ?m2 + Suc n \<and> tmr_reads m3 = tmr_reads ?m2 + Suc n"
    using fire before by (intro recv_wait_times_out [OF never]) (simp_all only: tm2)
  then obtain m3 where w: "recv_wait d e uart ?limit ?m2 = Some (True, m3)"
    and t3: "tmr_reads m3 = tmr_reads ?m2 + Suc n"
    by blast
  have lp: "recv_loop d e uart len ?limit 0 buf ?m2 = Some (0, buf, m3)"
    using zero_not_full w by (rule recv_loop_out)
  let ?m' = "if UART_MCR (uarts m uart) AND UART_MCR_RTS d \<noteq> 0
            then wr_MCR uart (UART_MCR (uarts m3 uart) OR UART_MCR_RTS d) m3
            else m3"
  have ret: "uart_recv d e idx buf len m = Some (0, buf, ?m')"
    by (simp only: uart_recv_unfold [OF uart_def] lp option.case prod.case)
  have cnt: "tmr_reads ?m' = ?r + n + 2" using t3 tm2 by (simp add: counters_wr)
  have late: "unat ?start + 250 < unat (tmr_in e (?r + Suc n))"
    using fire nowrap by (simp add: word_less_nat_alt)
  have early: "\<forall>j<n. unat (tmr_in e (?r + Suc j)) \<le> unat ?start + 250"
    using before nowrap by (simp add: word_less_nat_alt not_less)
  show ?thesis using ret n250 cnt late early by blast
qed

text \<open>
  C3, as the code has it. With the data-ready bit clear at every read and the counter
  values growing strictly over the first 252 reads of the call (so the 32-bit counter
  does not wrap around in that window), \<^verbatim>\<open>uart_recv\<close> returns 0, for every length, at
  the first read that shows more than 250 microseconds since entry. With length 0 the
  loop has no other exit: whenever it returns, the wait of its last turn has timed out.
\<close>

theorem uart_recv_times_out:
  assumes never: "\<forall>k. lsr_in e k AND UART_LSR_RDR d = 0"
    and incr: "\<forall>k<251. tmr_in e (tmr_reads m + k) < tmr_in e (tmr_reads m + Suc k)"
  shows "(\<exists>m' n. uart_recv d e idx buf len m = Some (0, buf, m')
            \<and> n \<le> 250 \<and> tmr_reads m' = tmr_reads m + n + 2
            \<and> unat (tmr_in e (tmr_reads m)) + 250 < unat (tmr_in e (tmr_reads m + Suc n))
            \<and> (\<forall>j<n. unat (tmr_in e (tmr_reads m + Suc j))
                        \<le> unat (tmr_in e (tmr_reads m)) + 250))
       \<and> (\<forall>e' u t i b m0 r. recv_loop d e' u 0 t i b m0 = Some r
            \<longrightarrow> (\<exists>t' m1. recv_wait d e' u t' m1 = Some (True, snd (snd r))))"
  using uart_recv_quiet [OF never incr] recv_loop_unbounded_exit by blast

lemma idle_env_quiet: "\<forall>k. lsr_in idle_env k AND UART_LSR_RDR sample_defs = 0"
  by (simp add: idle_env_simps sample_defs_simps)

lemma idle_env_counts:
  assumes "r = 0"
  shows "\<forall>k<251. tmr_in idle_env (r + k) < tmr_in idle_env (r + Suc k)"
proof (intro allI impI)
  fix k :: nat
  assume "k < 251"
  then have "Suc k < 2 ^ 32" by simp
  from word_of_nat_Suc_less [OF this]
  show "tmr_in idle_env (r + k) < tmr_in idle_env (r + Suc k)"
    by (simp only: idle_env_simps assms add_0)
qed

theorem uart_recv_times_out_witness:
  "(\<forall>k. lsr_in idle_env k AND UART_LSR_RDR sample_defs = 0) \<and>
   (\<exists>m'. uart_recv sample_defs idle_env 0 zero_buf 0 boot = Some (0, zero_buf, m')
      \<and> tmr_reads m' \<le> 252)"
proof -
  have incr: "\<forall>k<251. tmr_in idle_env (tmr_reads boot + k)
                        < tmr_in idle_env (tmr_reads boot + Suc k)"
    by (rule idle_env_counts) (simp add: boot_simps)
  from uart_recv_times_out [OF idle_env_quiet incr, of 0 zero_buf 0]
  obtain m' n
    where r: "uart_recv sample_defs idle_env 0 zero_buf 0 boot = Some (0, zero_buf, m')"
      and n: "n \<le> 250" and c: "tmr_reads m' = tmr_reads boot + n + 2"
    by blast
  from n c have "tmr_reads m' \<le> 252" by (simp add: boot_simps)
  with r show ?thesis using idle_env_quiet by blast
qed

text \<open>
  Without the condition on the counter both halves of the claim fail, because the limit
  \<^verbatim>\<open>timeout\<close> is computed and compared in 32 bits. On \<open>wrap_env\<close> the counter
  reads \<open>0xFFFFFF05\<close> on entry; the limit is \<open>0xFFFFFFFF\<close>, no 32-bit value is
  greater, and the wait never ends, however long the counter runs on. On \<open>late_env\<close>
  the counter reads \<open>0xFFFFFFF0\<close> on entry; the limit wraps around to \<open>0xEA\<close>, and the
  call returns 0 at the next read, one microsecond after entry.
\<close>

lemma uart_recv_hangs:
  "uart_recv sample_defs wrap_env 0 zero_buf 4 boot = None"
proof -
  have never: "\<forall>k. lsr_in wrap_env k AND UART_LSR_RDR sample_defs = 0"
    by (simp add: wrap_env_def sample_defs_simps)
  have t: "tmr_in wrap_env (tmr_reads boot) + 250 = - 1"
    by (simp add: wrap_env_def boot_simps)
  have q: "\<not> (UART_MCR (uarts boot 0x70006000) AND UART_MCR_RTS sample_defs \<noteq> 0)"
    by (simp add: boot_simps zero_uart_def)
  have "recv_loop sample_defs wrap_env 0x70006000 4 (- 1) 0 zero_buf
          (snd (get_tmr_us wrap_env boot)) = None"
    by (rule recv_loop_stuck [OF _ recv_wait_hangs [OF never]]) simp
  then show ?thesis
    by (simp only: uart_recv_unfold [OF sample_ptr_0 [symmetric]] t q if_False option.case)
qed

lemma uart_recv_early:
  "uart_recv sample_defs late_env 0 zero_buf 4 boot
     = Some (0, zero_buf, boot\<lparr>lsr_reads := 1, tmr_reads := 2,
          trace := [Get_tmr 0xFFFFFFF0, Read 0x70006000 LSR 0x60, Get_tmr 0xFFFFFFF1]\<rparr>)"
proof -
  have q: "\<not> (UART_MCR (uarts boot 0x70006000) AND UART_MCR_RTS sample_defs \<noteq> 0)"
    by (simp add: boot_simps zero_uart_def)
  have w: "recv_wait sample_defs late_env 0x70006000
             (tmr_in late_env (tmr_reads boot) + 250) (snd (get_tmr_us late_env boot))
           = Some (True, boot\<lparr>lsr_reads := 1, tmr_reads := 2,
          trace := [Get_tmr 0xFFFFFFF0, Read 0x70006000 LSR 0x60, Get_tmr 0xFFFFFFF1]\<rparr>)"
    by (subst recv_wait.simps)
       (simp add: rd_LSR_def get_tmr_us_def late_env_def sample_defs_simps boot_def)
  have "recv_loop sample_defs late_env 0x70006000 4
          (tmr_in late_env (tmr_reads boot) + 250) 0 zero_buf (snd (get_tmr_us late_env boot))
        = Some (0, zero_buf, boot\<lparr>lsr_reads := 1, tmr_reads := 2,
          trace := [Get_tmr 0xFFFFFFF0, Read 0x70006000 LSR 0x60, Get_tmr 0xFFFFFFF1]\<rparr>)"
    using zero_not_full w by (rule recv_loop_out)
  then show ?thesis
    by (simp only: uart_recv_unfold [OF sample_ptr_0 [symmetric]] q if_False
        option.case prod.case)
qed

theorem uart_recv_wrap_counterexample:
  "uart_recv sample_defs wrap_env 0 zero_buf 4 boot = None
   \<and> uart_recv sample_defs late_env 0 zero_buf 4 boot
       = Some (0, zero_buf, boot\<lparr>lsr_reads := 1, tmr_reads := 2,
          trace := [Get_tmr 0xFFFFFFF0, Read 0x70006000 LSR 0x60, Get_tmr 0xFFFFFFF1]\<rparr>)
   \<and> tmr_in late_env 0 = 0xFFFFFFF0 \<and> tmr_in late_env 1 = 0xFFFFFFF1"
  using uart_recv_hangs uart_recv_early by (simp add: late_env_def)

text \<open>
  With length 0 and a byte always waiting, nothing ends the loop: the count is never
  compared and no wait times out.
\<close>

lemma recv_loop_unbounded_runs_on:
  assumes ready: "\<forall>k. lsr_in e k AND UART_LSR_RDR d \<noteq> 0"
  shows "recv_loop d e u 0 t i buf m = None"
proof (rule ccontr)
  assume "recv_loop d e u 0 t i buf m \<noteq> None"
  then obtain r where "recv_loop d e u 0 t i buf m = Some r" by auto
  from recv_loop_unbounded_exit [OF this]
  obtain t' m1 where "recv_wait d e u t' m1 = Some (True, snd (snd r))" by blast
  moreover have "recv_wait d e u t' m1 = Some (False, snd (rd_LSR e u m1))"
    using ready by (simp add: recv_wait_ready)
  ultimately show False by simp
qed

subsection \<open>Request to send\<close>

text \<open>
  C4. A call on a port whose \<^verbatim>\<open>UART_MCR\<close> has the request-to-send bit set. Whether or
  not it returns, the call is the receive loop run from the machine \<open>m2\<close>, in which the
  counter has been read and the bit has been cleared by a write to \<^verbatim>\<open>UART_MCR\<close>, and
  followed by the write that sets the bit again. When the call returns, the record of
  what it did to the hardware is, in order: the read of the counter; one write to
  \<^verbatim>\<open>UART_MCR\<close> of the port, of a value with the bit clear; the events \<open>evs\<close> of the
  receive loop, none of which is a write; one write to \<^verbatim>\<open>UART_MCR\<close> of the port, of
  that value with the bit set. So the bit is cleared before the loop does anything,
  stays clear while the loop runs, and is set again as the last thing before the
  return. The loop's result is returned unchanged, so this holds for the exit on a full
  buffer and for the exit through \<^verbatim>\<open>out\<close> alike.
\<close>

theorem uart_recv_rts:
  assumes ptr: "uart = uart_ptr d e idx"
    and manual: "UART_MCR (uarts m uart) AND UART_MCR_RTS d \<noteq> 0"
  shows "\<exists>m2.
           m2 = wr_MCR uart (UART_MCR (uarts m uart) AND NOT (UART_MCR_RTS d))
                  (snd (get_tmr_us e m))
         \<and> trace m2 = trace m
             @ [Get_tmr (tmr_in e (tmr_reads m)),
                Write uart MCR (UART_MCR (uarts m uart) AND NOT (UART_MCR_RTS d))]
         \<and> UART_MCR (uarts m2 uart) AND UART_MCR_RTS d = 0
         \<and> uart_recv d e idx buf len m
             = (case recv_loop d e uart len (tmr_in e (tmr_reads m) + 250) 0 buf m2 of
                  None \<Rightarrow> None
                | Some (i, b, m3) \<Rightarrow>
                    Some (i, b, wr_MCR uart (UART_MCR (uarts m3 uart) OR UART_MCR_RTS d) m3))
         \<and> (\<forall>n buf' m'. uart_recv d e idx buf len m = Some (n, buf', m') \<longrightarrow>
               (\<exists>m3 evs.
                   recv_loop d e uart len (tmr_in e (tmr_reads m) + 250) 0 buf m2
                     = Some (n, buf', m3)
                 \<and> uarts m3 = uarts m2
                 \<and> trace m3 = trace m2 @ evs
                 \<and> (\<forall>ev\<in>set evs. \<not> is_write ev)
                 \<and> m' = wr_MCR uart (UART_MCR (uarts m3 uart) OR UART_MCR_RTS d) m3
                 \<and> UART_MCR (uarts m' uart) AND UART_MCR_RTS d = UART_MCR_RTS d
                 \<and> trace m' = trace m
                     @ [Get_tmr (tmr_in e (tmr_reads m)),
                        Write uart MCR (UART_MCR (uarts m uart) AND NOT (UART_MCR_RTS d))]
                     @ evs
                     @ [Write uart MCR ((UART_MCR (uarts m uart) AND NOT (UART_MCR_RTS d))
                                        OR UART_MCR_RTS d)]))
         \<and> (UART_MCR (uarts m uart) AND NOT (UART_MCR_RTS d)) AND UART_MCR_RTS d = 0
         \<and> ((UART_MCR (uarts m uart) AND NOT (UART_MCR_RTS d)) OR UART_MCR_RTS d)
             AND UART_MCR_RTS d = UART_MCR_RTS d"
proof -
  let ?x = "UART_MCR (uarts m uart) AND NOT (UART_MCR_RTS d)"
  let ?m2 = "wr_MCR uart ?x (snd (get_tmr_us e m))"
  have t2: "trace ?m2 = trace m @ [Get_tmr (tmr_in e (tmr_reads m)), Write uart MCR ?x]"
    by (simp add: trace_wr get_tmr_us_simps)
  have clr: "UART_MCR (uarts ?m2 uart) AND UART_MCR_RTS d = 0"
    by (simp add: uarts_wr and_not_and_self)
  have unf: "uart_recv d e idx buf len m
             = (case recv_loop d e uart len (tmr_in e (tmr_reads m) + 250) 0 buf ?m2 of
                  None \<Rightarrow> None
                | Some (i, b, m3) \<Rightarrow>
                    Some (i, b, wr_MCR uart (UART_MCR (uarts m3 uart) OR UART_MCR_RTS d) m3))"
    using manual by (simp add: uart_recv_unfold [OF ptr] split: option.splits)
  have a: "?x AND UART_MCR_RTS d = 0" by (rule and_not_and_self)
  have b: "(?x OR UART_MCR_RTS d) AND UART_MCR_RTS d = UART_MCR_RTS d" by (rule or_and_self)
  have ret: "\<exists>m3 evs.
                   recv_loop d e uart len (tmr_in e (tmr_reads m) + 250) 0 buf ?m2
                     = Some (n, buf', m3)
                 \<and> uarts m3 = uarts ?m2
                 \<and> trace m3 = trace ?m2 @ evs
                 \<and> (\<forall>ev\<in>set evs. \<not> is_write ev)
                 \<and> m' = wr_MCR uart (UART_MCR (uarts m3 uart) OR UART_MCR_RTS d) m3
                 \<and> UART_MCR (uarts m' uart) AND UART_MCR_RTS d = UART_MCR_RTS d
                 \<and> trace m' = trace m
                     @ [Get_tmr (tmr_in e (tmr_reads m)), Write uart MCR ?x]
                     @ evs
                     @ [Write uart MCR (?x OR UART_MCR_RTS d)]"
    if r: "uart_recv d e idx buf len m = Some (n, buf', m')" for n buf' m'
  proof -
    from r obtain m3
      where lp: "recv_loop d e uart len (tmr_in e (tmr_reads m) + 250) 0 buf ?m2
                   = Some (n, buf', m3)"
        and m': "m' = wr_MCR uart (UART_MCR (uarts m3 uart) OR UART_MCR_RTS d) m3"
      unfolding unf by (auto split: option.splits)
    from recv_loop_frame [OF lp] obtain evs
      where fr: "uarts m3 = uarts ?m2" and tr: "trace m3 = trace ?m2 @ evs"
        and nw: "\<forall>ev\<in>set evs. \<not> is_write ev"
      by auto
    have hi: "UART_MCR (uarts m' uart) AND UART_MCR_RTS d = UART_MCR_RTS d"
      by (simp add: m' uarts_wr or_and_self)
    have x3: "UART_MCR (uarts m3 uart) = ?x" by (simp add: fr uarts_wr)
    have all: "trace m' = trace m @ [Get_tmr (tmr_in e (tmr_reads m)), Write uart MCR ?x]
               @ evs @ [Write uart MCR (?x OR UART_MCR_RTS d)]"
      by (simp add: m' trace_wr tr get_tmr_us_simps x3)
    show ?thesis
      by (intro exI [of _ m3] exI [of _ evs] conjI lp fr tr nw m' hi all)
  qed
  show ?thesis
    by (intro exI [of _ ?m2] conjI refl t2 clr unf a b allI impI ret)
qed

theorem uart_recv_rts_witness:
  "UART_MCR (uarts rts_boot 0x70006000) AND UART_MCR_RTS sample_defs \<noteq> 0
   \<and> (\<exists>buf' m'. uart_recv sample_defs data_env 0 zero_buf 2 rts_boot = Some (2, buf', m')
         \<and> UART_MCR (uarts m' 0x70006000) AND UART_MCR_RTS sample_defs
             = UART_MCR_RTS sample_defs
         \<and> take 2 (trace m') = [Get_tmr 0, Write 0x70006000 MCR 0]
         \<and> last (trace m') = Write 0x70006000 MCR 2
         \<and> filter is_write (trace m') = [Write 0x70006000 MCR 0, Write 0x70006000 MCR 2])
   \<and> (\<exists>m'. uart_recv sample_defs idle_env 0 zero_buf 2 rts_boot = Some (0, zero_buf, m')
         \<and> UART_MCR (uarts m' 0x70006000) AND UART_MCR_RTS sample_defs
             = UART_MCR_RTS sample_defs
         \<and> take 2 (trace m') = [Get_tmr 0, Write 0x70006000 MCR 0]
         \<and> last (trace m') = Write 0x70006000 MCR 2
         \<and> filter is_write (trace m') = [Write 0x70006000 MCR 0, Write 0x70006000 MCR 2])"
proof -
  have manual: "UART_MCR (uarts rts_boot 0x70006000) AND UART_MCR_RTS sample_defs \<noteq> 0"
    by (simp add: rts_boot_simps sample_defs_simps)
  have len: "(2::u32) \<noteq> 0" by simp
  have ready: "\<forall>k. lsr_in data_env k AND UART_LSR_RDR sample_defs \<noteq> 0"
    by (simp add: data_env_def sample_defs_simps)
  from uart_recv_ready [OF len ready, of 0 zero_buf rts_boot]
  obtain b1 m1
    where r1: "uart_recv sample_defs data_env 0 zero_buf 2 rts_boot = Some (2, b1, m1)"
    by blast
  from uart_recv_rts [OF sample_ptr_0 [symmetric] manual, of data_env zero_buf 2] r1
  obtain evs1
    where s1: "UART_MCR (uarts m1 0x70006000) AND UART_MCR_RTS sample_defs
            = UART_MCR_RTS sample_defs"
      and u1: "trace m1 = trace rts_boot
             @ [Get_tmr (tmr_in data_env (tmr_reads rts_boot)),
                Write 0x70006000 MCR (UART_MCR (uarts rts_boot 0x70006000)
                                      AND NOT (UART_MCR_RTS sample_defs))]
             @ evs1
             @ [Write 0x70006000 MCR ((UART_MCR (uarts rts_boot 0x70006000)
                                       AND NOT (UART_MCR_RTS sample_defs))
                                      OR UART_MCR_RTS sample_defs)]"
      and n1: "\<forall>ev\<in>set evs1. \<not> is_write ev"
    by blast
  from u1 have t1: "trace m1 = [Get_tmr 0, Write 0x70006000 MCR 0] @ evs1
                 @ [Write 0x70006000 MCR 2]"
    by (simp add: rts_boot_simps sample_defs_simps data_env_def idle_env_simps)
  from n1 have f1: "filter is_write evs1 = []" by (simp add: filter_empty_conv)
  have c1: "take 2 (trace m1) = [Get_tmr 0, Write 0x70006000 MCR 0]"
    "last (trace m1) = Write 0x70006000 MCR 2"
    "filter is_write (trace m1) = [Write 0x70006000 MCR 0, Write 0x70006000 MCR 2]"
    by (simp_all add: t1 f1)
  have incr: "\<forall>k<251. tmr_in idle_env (tmr_reads rts_boot + k)
                        < tmr_in idle_env (tmr_reads rts_boot + Suc k)"
    by (rule idle_env_counts) (simp add: rts_boot_simps)
  from uart_recv_quiet [OF idle_env_quiet incr, of 0 zero_buf 2]
  obtain m2
    where r2: "uart_recv sample_defs idle_env 0 zero_buf 2 rts_boot = Some (0, zero_buf, m2)"
    by blast
  from uart_recv_rts [OF sample_ptr_0 [symmetric] manual, of idle_env zero_buf 2] r2
  obtain evs2
    where s2: "UART_MCR (uarts m2 0x70006000) AND UART_MCR_RTS sample_defs
            = UART_MCR_RTS sample_defs"
      and u2: "trace m2 = trace rts_boot
             @ [Get_tmr (tmr_in idle_env (tmr_reads rts_boot)),
                Write 0x70006000 MCR (UART_MCR (uarts rts_boot 0x70006000)
                                      AND NOT (UART_MCR_RTS sample_defs))]
             @ evs2
             @ [Write 0x70006000 MCR ((UART_MCR (uarts rts_boot 0x70006000)
                                       AND NOT (UART_MCR_RTS sample_defs))
                                      OR UART_MCR_RTS sample_defs)]"
      and n2: "\<forall>ev\<in>set evs2. \<not> is_write ev"
    by blast
  from u2 have t2: "trace m2 = [Get_tmr 0, Write 0x70006000 MCR 0] @ evs2
                 @ [Write 0x70006000 MCR 2]"
    by (simp add: rts_boot_simps sample_defs_simps data_env_def idle_env_simps)
  from n2 have f2: "filter is_write evs2 = []" by (simp add: filter_empty_conv)
  have c2: "take 2 (trace m2) = [Get_tmr 0, Write 0x70006000 MCR 0]"
    "last (trace m2) = Write 0x70006000 MCR 2"
    "filter is_write (trace m2) = [Write 0x70006000 MCR 0, Write 0x70006000 MCR 2]"
    by (simp_all add: t2 f2)
  show ?thesis using manual r1 s1 c1 r2 s2 c2 by blast
qed

section \<open>Draining the FIFOs\<close>

lemma fifo_wait_tx_bounded:
  "lsr_reads (fifo_wait_tx d e u tries m) \<le> lsr_reads m + (10 - unat tries)
   \<and> length (slept (fifo_wait_tx d e u tries m)) \<le> length (slept m) + (10 - unat tries)
   \<and> uarts (fifo_wait_tx d e u tries m) = uarts m"
proof (induction d e u tries m rule: fifo_wait_tx.induct)
  case (1 d e u tries m)
  show ?case
  proof (cases "tries < 10")
    case False
    then show ?thesis by (subst (1 2 3) fifo_wait_tx.simps) simp
  next
    case lt: True
    then have u: "unat (tries + 1) = Suc (unat tries)" and v: "unat tries < 10"
      by (simp_all add: word_less_nat_alt unat_word_ariths)
    let ?lsr = "lsr_in e (lsr_reads m)"
    let ?m1 = "m\<lparr>lsr_reads := Suc (lsr_reads m), trace := trace m @ [Read u LSR ?lsr]\<rparr>"
    have rd: "rd_LSR e u m = (?lsr, ?m1)" by (simp add: rd_LSR_def)
    have m1: "lsr_reads ?m1 = Suc (lsr_reads m)"
      "length (slept ?m1) = length (slept m)" "uarts ?m1 = uarts m"
      by simp_all
    show ?thesis
    proof (cases "?lsr AND UART_LSR_TMTY d = 0")
      case True
      let ?m2 = "usleep 100 ?m1"
      have m2: "lsr_reads ?m2 = Suc (lsr_reads m)"
        "length (slept ?m2) = Suc (length (slept m))" "uarts ?m2 = uarts m"
        by (simp_all add: usleep_simps)
      note ih = 1 [OF lt refl rd [symmetric] True]
      have "lsr_reads (fifo_wait_tx d e u (tries + 1) ?m2) \<le> lsr_reads m + (10 - unat tries)"
        using ih m2(1) u v by arith
      moreover
      have "length (slept (fifo_wait_tx d e u (tries + 1) ?m2))
            \<le> length (slept m) + (10 - unat tries)"
        using ih m2(2) u v by arith
      moreover have "uarts (fifo_wait_tx d e u (tries + 1) ?m2) = uarts m"
        using ih m2(3) by simp
      ultimately show ?thesis
        using lt True by (subst (1 2 3) fifo_wait_tx.simps) (simp add: rd)
    next
      case False
      have "lsr_reads ?m1 \<le> lsr_reads m + (10 - unat tries)"
        "length (slept ?m1) \<le> length (slept m) + (10 - unat tries)"
        using m1 v by arith+
      with lt False m1(3) show ?thesis
        by (subst (1 2 3) fifo_wait_tx.simps) (simp add: rd)
    qed
  qed
qed

lemma fifo_wait_rx_bounded:
  "lsr_reads (fifo_wait_rx d e u tries m) \<le> lsr_reads m + (10 - unat tries)
   \<and> length (slept (fifo_wait_rx d e u tries m)) \<le> length (slept m) + (10 - unat tries)
   \<and> uarts (fifo_wait_rx d e u tries m) = uarts m"
proof (induction d e u tries m rule: fifo_wait_rx.induct)
  case (1 d e u tries m)
  show ?case
  proof (cases "tries < 10")
    case False
    then show ?thesis by (subst (1 2 3) fifo_wait_rx.simps) simp
  next
    case lt: True
    then have u: "unat (tries + 1) = Suc (unat tries)" and v: "unat tries < 10"
      by (simp_all add: word_less_nat_alt unat_word_ariths)
    let ?lsr = "lsr_in e (lsr_reads m)"
    let ?m1 = "m\<lparr>lsr_reads := Suc (lsr_reads m), trace := trace m @ [Read u LSR ?lsr]\<rparr>"
    have rd: "rd_LSR e u m = (?lsr, ?m1)" by (simp add: rd_LSR_def)
    have m1: "lsr_reads ?m1 = Suc (lsr_reads m)"
      "length (slept ?m1) = length (slept m)" "uarts ?m1 = uarts m"
      by simp_all
    show ?thesis
    proof (cases "?lsr AND UART_LSR_RDR d \<noteq> 0")
      case True
      let ?m2 = "usleep 100 ?m1"
      have m2: "lsr_reads ?m2 = Suc (lsr_reads m)"
        "length (slept ?m2) = Suc (length (slept m))" "uarts ?m2 = uarts m"
        by (simp_all add: usleep_simps)
      note ih = 1 [OF lt refl rd [symmetric] True]
      have "lsr_reads (fifo_wait_rx d e u (tries + 1) ?m2) \<le> lsr_reads m + (10 - unat tries)"
        using ih m2(1) u v by arith
      moreover
      have "length (slept (fifo_wait_rx d e u (tries + 1) ?m2))
            \<le> length (slept m) + (10 - unat tries)"
        using ih m2(2) u v by arith
      moreover have "uarts (fifo_wait_rx d e u (tries + 1) ?m2) = uarts m"
        using ih m2(3) by simp
      ultimately show ?thesis
        using lt True by (subst (1 2 3) fifo_wait_rx.simps) (simp add: rd)
    next
      case False
      have "lsr_reads ?m1 \<le> lsr_reads m + (10 - unat tries)"
        "length (slept ?m1) \<le> length (slept m) + (10 - unat tries)"
        using m1 v by arith+
      with lt False m1(3) show ?thesis
        by (subst (1 2 3) fifo_wait_rx.simps) (simp add: rd)
    qed
  qed
qed

text \<open>
  C7. \<^verbatim>\<open>uart_empty_fifo\<close> is a total function: it returns a machine for every
  behaviour of the status register. Each polling loop reads the line status register at
  most ten times and sleeps at most ten times, so the call reads it at most ten times
  per requested direction, and sleeps at most twice plus ten times per requested
  direction. The result carries no mark of whether the polling succeeded.
\<close>

theorem uart_empty_fifo_bounded:
  "(\<exists>m'. uart_empty_fifo d e idx which m = m'
           \<and> lsr_reads m' \<le> lsr_reads m
                + (if UART_IIR_FCR_TX_CLR d AND which \<noteq> 0 then 10 else 0)
                + (if UART_IIR_FCR_RX_CLR d AND which \<noteq> 0 then 10 else 0)
           \<and> length (slept m') \<le> length (slept m) + 2
                + (if UART_IIR_FCR_TX_CLR d AND which \<noteq> 0 then 10 else 0)
                + (if UART_IIR_FCR_RX_CLR d AND which \<noteq> 0 then 10 else 0))
       \<and> (\<forall>u m0. lsr_reads (fifo_wait_tx d e u 0 m0) \<le> lsr_reads m0 + 10
              \<and> lsr_reads (fifo_wait_rx d e u 0 m0) \<le> lsr_reads m0 + 10)"
proof -
  define uart where "uart = uart_ptr d e idx"
  let ?m2 = "usleep 18 (wr_IIR_FCR uart (UART_IIR_FCR_EN_FIFO d OR which)
               (usleep 96 (wr_MCR uart 0 m)))"
  let ?m3 = "if UART_IIR_FCR_TX_CLR d AND which \<noteq> 0 then fifo_wait_tx d e uart 0 ?m2 else ?m2"
  let ?m4 = "if UART_IIR_FCR_RX_CLR d AND which \<noteq> 0 then fifo_wait_rx d e uart 0 ?m3 else ?m3"
  have r: "uart_empty_fifo d e idx which m = ?m4"
    by (simp add: uart_empty_fifo_def Let_def uart_def)
  have l2: "lsr_reads ?m2 = lsr_reads m" and s2: "length (slept ?m2) = length (slept m) + 2"
    by (simp_all add: usleep_def wr_IIR_FCR_def wr_MCR_def)
  have l3: "lsr_reads ?m3
            \<le> lsr_reads ?m2 + (if UART_IIR_FCR_TX_CLR d AND which \<noteq> 0 then 10 else 0)"
    and s3: "length (slept ?m3)
            \<le> length (slept ?m2) + (if UART_IIR_FCR_TX_CLR d AND which \<noteq> 0 then 10 else 0)"
    using fifo_wait_tx_bounded [of d e uart 0 ?m2] by auto
  have l4: "lsr_reads ?m4
            \<le> lsr_reads ?m3 + (if UART_IIR_FCR_RX_CLR d AND which \<noteq> 0 then 10 else 0)"
    and s4: "length (slept ?m4)
            \<le> length (slept ?m3) + (if UART_IIR_FCR_RX_CLR d AND which \<noteq> 0 then 10 else 0)"
    using fifo_wait_rx_bounded [of d e uart 0 ?m3] by auto
  have a: "lsr_reads ?m4 \<le> lsr_reads m
                + (if UART_IIR_FCR_TX_CLR d AND which \<noteq> 0 then 10 else 0)
                + (if UART_IIR_FCR_RX_CLR d AND which \<noteq> 0 then 10 else 0)"
    using l2 l3 l4 by linarith
  have b: "length (slept ?m4) \<le> length (slept m) + 2
                + (if UART_IIR_FCR_TX_CLR d AND which \<noteq> 0 then 10 else 0)
                + (if UART_IIR_FCR_RX_CLR d AND which \<noteq> 0 then 10 else 0)"
    using s2 s3 s4 by linarith
  have c: "lsr_reads (fifo_wait_tx d e u 0 m0) \<le> lsr_reads m0 + 10
           \<and> lsr_reads (fifo_wait_rx d e u 0 m0) \<le> lsr_reads m0 + 10" for u m0
    using fifo_wait_tx_bounded [of d e u 0 m0] fifo_wait_rx_bounded [of d e u 0 m0] by simp
  show ?thesis using r a b c by blast
qed

theorem uart_empty_fifo_bounded_witness:
  "\<exists>m'. uart_empty_fifo sample_defs stuck_env 0 6 boot = m'
      \<and> lsr_reads m' \<le> 20 \<and> length (slept m') \<le> 22"
  using uart_empty_fifo_bounded [of sample_defs stuck_env 0 6 boot]
  by (auto simp: sample_defs_simps boot_simps)

text \<open>
  On a line that never reports completion, with both directions requested, the bound is
  reached: twenty reads, and two sleeps plus twenty.
\<close>

lemma uart_empty_fifo_exhausted:
  "lsr_reads (uart_empty_fifo sample_defs stuck_env 0 6 boot) = 20
   \<and> length (slept (uart_empty_fifo sample_defs stuck_env 0 6 boot)) = 22"
  by (simp add: uart_empty_fifo_def sample_ptr_0 sample_defs_simps Let_def
      fifo_wait_tx.simps fifo_wait_rx.simps rd_LSR_def stuck_env_def usleep_def
      wr_MCR_def wr_IIR_FCR_def boot_def)

section \<open>The port index\<close>

lemma past_the_table:
  "uart_ptr sample_defs idle_env 5 = 0x70006000"
  by (simp add: uart_ptr_def uart_base_offsets_at_def uart_base_offsets_def
      sample_defs_simps idle_env_simps)

text \<open>
  C9 does not hold: no routine compares its index with the size of the table. With
  index 5, and a zero half-word behind the table, \<^verbatim>\<open>uart_set_mode\<close> performs the
  lookup, gets the address of port A, and writes the mode register of port A, exactly as
  it does with index 0.
\<close>

theorem uart_index_counterexample:
  "uart_ptr sample_defs idle_env 5 = 0x70006000
   \<and> UART_MCR (uarts boot 0x70006000) = 0
   \<and> UART_MCR (uarts (uart_set_mode sample_defs idle_env 5 7 boot) 0x70006000) = 7
   \<and> trace (uart_set_mode sample_defs idle_env 5 7 boot) = [Write 0x70006000 MCR 7]
   \<and> uart_set_mode sample_defs idle_env 5 7 boot = uart_set_mode sample_defs idle_env 0 7 boot"
  by (simp add: uart_set_mode_def Let_def past_the_table sample_ptr_0 uarts_wr trace_wr
      boot_simps zero_uart_def)

text \<open>
  C9, as the code has it. Every routine starts with the table lookup, whatever the
  index, and goes on with the address it yields: for an index below 5 the base address
  plus the table entry, for any other index the base address plus the half-word that
  lies past the table. The index has no other use, except that \<^verbatim>\<open>uart_init\<close> hands it
  to the clock helper: two indices that yield the same address give the same run of
  every routine. So \<^verbatim>\<open>uart_set_mode\<close>, \<^verbatim>\<open>uart_invert\<close> and \<^verbatim>\<open>uart_set_IIR\<close> write
  to the block at that address for every index, and \<^verbatim>\<open>uart_empty_fifo\<close> begins by
  writing its mode register. Keeping the index below 5 is left to the caller.
\<close>

theorem uart_index_unchecked:
  "(idx < 5 \<longrightarrow> uart_ptr d e idx = UART_BASE d + ucast (uart_base_offsets ! unat idx))
   \<and> (5 \<le> idx \<longrightarrow> uart_ptr d e idx = UART_BASE d + ucast (past_table e idx))
   \<and> trace (uart_set_mode d e idx mode m) = trace m @ [Write (uart_ptr d e idx) MCR mode]
   \<and> trace (uart_invert d e idx enable invert_mask m)
       = trace m @ [Write (uart_ptr d e idx) IRDA_CSR
                      (if enable then UART_IRDA_CSR (uarts m (uart_ptr d e idx)) OR invert_mask
                       else UART_IRDA_CSR (uarts m (uart_ptr d e idx)) AND NOT invert_mask)]
   \<and> trace (uart_set_IIR d e idx m)
       = trace m @ [Write (uart_ptr d e idx) IER_DLAB
                      (UART_IER_DLAB (uarts m (uart_ptr d e idx))
                       AND NOT (UART_IER_DLAB_IE_EORD d)),
                    Write (uart_ptr d e idx) IER_DLAB
                      ((UART_IER_DLAB (uarts m (uart_ptr d e idx))
                        AND NOT (UART_IER_DLAB_IE_EORD d)) OR UART_IER_DLAB_IE_EORD d)]
   \<and> (uart_ptr d e idx = uart_ptr d e idx' \<longrightarrow>
         uart_wait_xfer d e idx which m = uart_wait_xfer d e idx' which m
       \<and> uart_send d e idx buf len m = uart_send d e idx' buf len m
       \<and> uart_recv d e idx rbuf len m = uart_recv d e idx' rbuf len m
       \<and> uart_invert d e idx enable invert_mask m = uart_invert d e idx' enable invert_mask m
       \<and> uart_set_mode d e idx mode m = uart_set_mode d e idx' mode m
       \<and> uart_get_IIR d e idx m = uart_get_IIR d e idx' m
       \<and> uart_set_IIR d e idx m = uart_set_IIR d e idx' m
       \<and> uart_empty_fifo d e idx which m = uart_empty_fifo d e idx' which m
       \<and> (clock_uart_use_src_div e idx baud = clock_uart_use_src_div e idx' baud \<longrightarrow>
            uart_init d e idx baud mode m = uart_init d e idx' baud mode m))"
proof -
  have a: "idx < 5 \<longrightarrow> uart_ptr d e idx = UART_BASE d + ucast (uart_base_offsets ! unat idx)"
    using uart_ptr_in_table by blast
  have b: "5 \<le> idx \<longrightarrow> uart_ptr d e idx = UART_BASE d + ucast (past_table e idx)"
    using uart_ptr_past_table by blast
  have c: "trace (uart_set_mode d e idx mode m) = trace m @ [Write (uart_ptr d e idx) MCR mode]"
    by (simp add: uart_set_mode_def Let_def trace_wr)
  have i: "trace (uart_invert d e idx enable invert_mask m)
       = trace m @ [Write (uart_ptr d e idx) IRDA_CSR
                      (if enable then UART_IRDA_CSR (uarts m (uart_ptr d e idx)) OR invert_mask
                       else UART_IRDA_CSR (uarts m (uart_ptr d e idx)) AND NOT invert_mask)]"
    by (simp add: uart_invert_def Let_def trace_wr)
  have s: "trace (uart_set_IIR d e idx m)
       = trace m @ [Write (uart_ptr d e idx) IER_DLAB
                      (UART_IER_DLAB (uarts m (uart_ptr d e idx))
                       AND NOT (UART_IER_DLAB_IE_EORD d)),
                    Write (uart_ptr d e idx) IER_DLAB
                      ((UART_IER_DLAB (uarts m (uart_ptr d e idx))
                        AND NOT (UART_IER_DLAB_IE_EORD d)) OR UART_IER_DLAB_IE_EORD d)]"
    by (simp add: uart_set_IIR_def Let_def trace_wr uarts_wr)
  have same: "uart_wait_xfer d e idx which m = uart_wait_xfer d e idx' which m
       \<and> uart_send d e idx buf len m = uart_send d e idx' buf len m
       \<and> uart_recv d e idx rbuf len m = uart_recv d e idx' rbuf len m
       \<and> uart_invert d e idx enable invert_mask m = uart_invert d e idx' enable invert_mask m
       \<and> uart_set_mode d e idx mode m = uart_set_mode d e idx' mode m
       \<and> uart_get_IIR d e idx m = uart_get_IIR d e idx' m
       \<and> uart_set_IIR d e idx m = uart_set_IIR d e idx' m
       \<and> uart_empty_fifo d e idx which m = uart_empty_fifo d e idx' which m
       \<and> (clock_uart_use_src_div e idx baud = clock_uart_use_src_div e idx' baud \<longrightarrow>
            uart_init d e idx baud mode m = uart_init d e idx' baud mode m)"
    if p: "uart_ptr d e idx = uart_ptr d e idx'"
  proof -
    have w: "uart_wait_xfer d e idx wh mm = uart_wait_xfer d e idx' wh mm" for wh mm
      by (simp only: uart_wait_xfer_def p)
    have 1: "uart_send d e idx buf len m = uart_send d e idx' buf len m"
      by (simp only: uart_send_def p)
    have 2: "uart_recv d e idx rbuf len m = uart_recv d e idx' rbuf len m"
      by (simp only: uart_recv_def p)
    have 3: "uart_invert d e idx enable invert_mask m
             = uart_invert d e idx' enable invert_mask m"
      by (simp only: uart_invert_def p)
    have 4: "uart_set_mode d e idx mode m = uart_set_mode d e idx' mode m"
      by (simp only: uart_set_mode_def p)
    have 5: "uart_get_IIR d e idx m = uart_get_IIR d e idx' m"
      by (simp only: uart_get_IIR_def p)
    have 6: "uart_set_IIR d e idx m = uart_set_IIR d e idx' m"
      by (simp only: uart_set_IIR_def p)
    have 7: "uart_empty_fifo d e idx which m = uart_empty_fifo d e idx' which m"
      by (simp only: uart_empty_fifo_def p)
    have 8: "uart_init d e idx baud mode m = uart_init d e idx' baud mode m"
      if k: "clock_uart_use_src_div e idx baud = clock_uart_use_src_div e idx' baud"
    proof -
      have "uart_init_setup d e u idx baud mode mm = uart_init_setup d e u idx' baud mode mm"
        for u mm
        by (simp only: uart_init_setup_def k)
      then show ?thesis by (simp only: uart_init_def p w)
    qed
    show ?thesis using w 1 2 3 4 5 6 7 8 by blast
  qed
  show ?thesis using a b c i s same by blast
qed

theorem uart_index_unchecked_witness:
  "uart_ptr sample_defs idle_env 4 = 0x70006400
   \<and> uart_ptr sample_defs idle_env 5 = 0x70006000
   \<and> uart_ptr sample_defs idle_env 5 = uart_ptr sample_defs idle_env 0
   \<and> uart_init sample_defs idle_env 5 115200 0 boot
       = uart_init sample_defs idle_env 0 115200 0 boot
   \<and> uart_recv sample_defs idle_env 5 zero_buf 4 boot
       = uart_recv sample_defs idle_env 0 zero_buf 4 boot
   \<and> uart_empty_fifo sample_defs idle_env 5 6 boot
       = uart_empty_fifo sample_defs idle_env 0 6 boot
   \<and> trace (uart_set_mode sample_defs idle_env 5 7 boot) = [Write 0x70006000 MCR 7]"
  using uart_index_unchecked [where idx = 4 and d = sample_defs and e = idle_env]
    uart_index_unchecked [where idx = 5 and idx' = 0 and d = sample_defs and e = idle_env
      and baud = 115200 and mode = 0 and m = boot and rbuf = zero_buf and len = 4
      and which = 6]
    uart_index_unchecked [where idx = 5 and d = sample_defs and e = idle_env
      and mode = 7 and m = boot]
  by (simp add: sample_defs_simps uart_base_offsets_def idle_env_simps past_the_table
      sample_ptr_0 boot_simps)

end
